theory Spec2Isabelle
  imports Main "HOL-Library.Finite_Map" "HOL-Library.Sublist"
begin

section \<open>The suggestion reconciliation engine of \<^verbatim>\<open>src/utils/data-access.js\<close>\<close>

text \<open>
  The development embeds the functions \<^verbatim>\<open>handleOutdatedSuggestions\<close>,
  \<^verbatim>\<open>defaultMergeStatusFunction\<close>, \<^verbatim>\<open>syncSuggestions\<close>,
  \<^verbatim>\<open>getDisappearedSuggestions\<close>, \<^verbatim>\<open>reconcileDisappearedSuggestions\<close>,
  \<^verbatim>\<open>publishDeployedFixEntities\<close> and \<^verbatim>\<open>syncSuggestionsWithPublishDetection\<close>.

  Conventions of the embedding.
  \<^item> JavaScript values are the datatype \<open>jsval\<close>; numbers are integers, objects are finite
    maps from property names to values.
  \<^item> An exception is a value \<open>Error msg\<close>; a function that may throw returns a sum whose
    left injection is the exception.
  \<^item> Everything a function does to the outside world (log lines, calls of store operations
    and of injected callbacks) is appended to a trace of events, in program order. Log lines
    whose text embeds a JSON dump (\<^verbatim>\<open>JSON.stringify\<close>, \<^verbatim>\<open>safeStringify\<close>) are left out of the
    trace; every other log line is rendered character by character.
  \<^item> The persistence layer and the injected callbacks are not part of the module. They are
    parameters: each store operation is a function that says, for the arguments of a call,
    whether the call rejects and what it resolves to.
  \<^item> Entity accessors (\<^verbatim>\<open>getStatus\<close>, \<^verbatim>\<open>getData\<close>, \<^verbatim>\<open>getId\<close>) are field reads.
  \<^item> Asynchronous tasks started together are run one after the other, in list order.
\<close>

subsection \<open>JavaScript values\<close>

datatype jsval =
    JUndefined
  | JNull
  | JBool bool
  | JNum int
  | JStr string
  | JArr "jsval list"
  | JObj "(string, jsval) fmap"

text \<open>Truthiness, as used by \<^verbatim>\<open>!\<close>, \<^verbatim>\<open>||\<close>, \<^verbatim>\<open>&&\<close>, \<^verbatim>\<open>if\<close> and \<^verbatim>\<open>Boolean(...)\<close>.\<close>

fun truthy :: "jsval \<Rightarrow> bool" where
  "truthy JUndefined = False"
| "truthy JNull = False"
| "truthy (JBool b) = b"
| "truthy (JNum n) = (n \<noteq> 0)"
| "truthy (JStr s) = (s \<noteq> [])"
| "truthy (JArr xs) = True"
| "truthy (JObj m) = True"

text \<open>
  The property read \<^verbatim>\<open>v?.name\<close> for a data property \<open>name\<close> (here \<^verbatim>\<open>url\<close>,
  \<^verbatim>\<open>tokowakaDeployed\<close>, \<^verbatim>\<open>edgeDeployed\<close>): only an object can own it.
\<close>

fun get_prop :: "jsval \<Rightarrow> string \<Rightarrow> jsval" where
  "get_prop (JObj m) name = (case fmlookup m name of Some v \<Rightarrow> v | None \<Rightarrow> JUndefined)"
| "get_prop v name = JUndefined"

definition digit_char :: "nat \<Rightarrow> char" where
  "digit_char d =
     (if d = 0 then CHR ''0'' else if d = 1 then CHR ''1'' else if d = 2 then CHR ''2''
      else if d = 3 then CHR ''3'' else if d = 4 then CHR ''4'' else if d = 5 then CHR ''5''
      else if d = 6 then CHR ''6'' else if d = 7 then CHR ''7'' else if d = 8 then CHR ''8''
      else CHR ''9'')"

text \<open>The decimal rendering of a count inside a template literal.\<close>

fun show_nat :: "nat \<Rightarrow> string" where
  "show_nat n =
     (if n < 10 then [digit_char n] else show_nat (n div 10) @ [digit_char (n mod 10)])"

declare show_nat.simps [simp del]

text \<open>
  The own enumerable properties copied by the spread \<^verbatim>\<open>{...v}\<close>: the fields of an object,
  the indexed elements of an array or of a string, nothing for the other values.
\<close>

fun spread_fields :: "jsval \<Rightarrow> (string, jsval) fmap" where
  "spread_fields (JObj m) = m"
| "spread_fields (JArr xs) = fmap_of_list (zip (map show_nat [0..<length xs]) xs)"
| "spread_fields (JStr s) =
     fmap_of_list (zip (map show_nat [0..<length s]) (map (\<lambda>c. JStr [c]) s))"
| "spread_fields v = fmempty"

subsection \<open>Entities, exceptions and the trace\<close>

datatype status =
  NEW | APPROVED | IN_PROGRESS | SKIPPED | FIXED | ERROR | OUTDATED | PENDING_VALIDATION
  | REJECTED

fun status_name :: "status \<Rightarrow> string" where
  "status_name NEW = ''NEW''"
| "status_name APPROVED = ''APPROVED''"
| "status_name IN_PROGRESS = ''IN_PROGRESS''"
| "status_name SKIPPED = ''SKIPPED''"
| "status_name FIXED = ''FIXED''"
| "status_name ERROR = ''ERROR''"
| "status_name OUTDATED = ''OUTDATED''"
| "status_name PENDING_VALIDATION = ''PENDING_VALIDATION''"
| "status_name REJECTED = ''REJECTED''"

datatype fix_status = DEPLOYED | PUBLISHED | PENDING | FAILED | ROLLED_BACK

record suggestion =
  getId :: string
  getStatus :: status
  getData :: jsval
  getUpdatedBy :: string

definition setStatus :: "status \<Rightarrow> suggestion \<Rightarrow> suggestion" where
  "setStatus st s = s\<lparr>getStatus := st\<rparr>"

definition setData :: "jsval \<Rightarrow> suggestion \<Rightarrow> suggestion" where
  "setData d s = s\<lparr>getData := d\<rparr>"

definition setUpdatedBy :: "string \<Rightarrow> suggestion \<Rightarrow> suggestion" where
  "setUpdatedBy who s = s\<lparr>getUpdatedBy := who\<rparr>"

record fix_entity =
  getFixId :: string
  getFixStatus :: fix_status
  getSuggestionIds :: "string list option"

text \<open>
  A record submitted to the batch create: the object built by \<^verbatim>\<open>mapNewSuggestion\<close>
  with its \<^verbatim>\<open>status\<close> property overwritten.
\<close>

record new_suggestion =
  mapped :: jsval
  initialStatus :: status

record error_item =
  item :: jsval
  error :: "string option"

text \<open>
  What \<^verbatim>\<open>addSuggestions\<close> resolves to. The code reads \<^verbatim>\<open>createdItems\<close> and
  \<^verbatim>\<open>errorItems\<close> with \<^verbatim>\<open>?.\<close>, so either may be undefined (\<open>None\<close>);
  \<open>arrayLength\<close> is the property \<^verbatim>\<open>length\<close> of the result itself.
\<close>

record add_result =
  createdItems :: "suggestion list option"
  errorItems :: "error_item list option"
  arrayLength :: "nat option"

datatype exn = Error string

fun message :: "exn \<Rightarrow> string" where
  "message (Error m) = m"

datatype level = Debug | Info | Warn | Err

datatype event =
    Log level string
  | GetSuggestions
  | BulkUpdateStatus "suggestion list" status
  | Save suggestion
  | AddSuggestions "new_suggestion list"
  | IsIssueFixedWithAISuggestion suggestion
  | BuildFixEntityPayload suggestion bool
  | AddFixEntities "jsval list"
  | AllByOpportunityIdAndStatus string fix_status
  | GetFixEntitiesBySuggestionId string
  | IsIssueResolvedOnProduction suggestion
  | SaveFixEntity fix_entity

text \<open>
  The opportunity: its accessors and its store operations. \<open>getType\<close> and
  \<open>getSiteId\<close> are read with \<^verbatim>\<open>?.()\<close>; \<open>addFixEntities\<close> is tested with
  \<^verbatim>\<open>typeof ... === 'function'\<close>.
\<close>

record opportunity =
  getOpportunityId :: string
  getType :: "string option"
  getSiteId :: "string option"
  getSuggestions :: "exn + suggestion list"
  addSuggestions :: "new_suggestion list \<Rightarrow> exn + add_result"
  addFixEntities :: "(jsval list \<Rightarrow> exn option) option"

text \<open>
  \<^verbatim>\<open>context.dataAccess\<close>: the collection operations the module calls, and the
  outcome of \<^verbatim>\<open>save()\<close> on an entity (\<open>None\<close>: the promise resolves).
\<close>

record dataAccess =
  bulkUpdateStatus :: "suggestion list \<Rightarrow> status \<Rightarrow> exn option"
  saveSuggestion :: "suggestion \<Rightarrow> exn option"
  allByOpportunityIdAndStatus :: "(string \<Rightarrow> fix_status \<Rightarrow> exn + fix_entity list option) option"
  getFixEntitiesBySuggestionId :: "(string \<Rightarrow> exn + suggestion list) option"
  saveFixEntity :: "fix_entity \<Rightarrow> exn option"

record site =
  requiresValidation :: jsval

record audit_context =
  dataAccess :: dataAccess
  site :: "site option"

text \<open>\<^verbatim>\<open>Boolean(site?.requiresValidation)\<close>\<close>

definition siteRequiresValidation :: "audit_context \<Rightarrow> bool" where
  "siteRequiresValidation ctx =
     truthy (case site ctx of None \<Rightarrow> JUndefined | Some s \<Rightarrow> requiresValidation s)"

subsection \<open>\<^verbatim>\<open>handleOutdatedSuggestions\<close>\<close>

definition isDeployed :: "suggestion \<Rightarrow> bool" where
  "isDeployed existing =
     (truthy (get_prop (getData existing) ''tokowakaDeployed'')
      \<or> truthy (get_prop (getData existing) ''edgeDeployed''))"

definition urlWasScraped :: "jsval set option \<Rightarrow> suggestion \<Rightarrow> bool" where
  "urlWasScraped scrapedUrlsSet existing =
     (case scrapedUrlsSet of
        Some urls \<Rightarrow>
          (let suggestionUrl = get_prop (getData existing) ''url''
           in truthy suggestionUrl \<and> suggestionUrl \<in> urls)
      | None \<Rightarrow> True)"

text \<open>The chain of four filters that selects the suggestions to mark.\<close>

definition existingOutdatedSuggestions ::
  "suggestion list \<Rightarrow> string set \<Rightarrow> (jsval \<Rightarrow> string) \<Rightarrow> jsval set option \<Rightarrow> suggestion list"
where
  "existingOutdatedSuggestions existingSuggestions newDataKeys buildKey scrapedUrlsSet =
     filter (urlWasScraped scrapedUrlsSet)
       (filter (\<lambda>existing. \<not> isDeployed existing)
          (filter (\<lambda>existing. getStatus existing \<notin> set
               [OUTDATED, FIXED, ERROR, SKIPPED, REJECTED, APPROVED, IN_PROGRESS,
                PENDING_VALIDATION])
             (filter (\<lambda>existing. buildKey (getData existing) \<notin> newDataKeys)
                existingSuggestions)))"

text \<open>
  The function returns the fetched suggestion objects as they are after the call.
  \<^verbatim>\<open>bulkUpdateStatus(records, status)\<close> gives each record passed to it the status; the
  records passed are the elements of \<open>existingSuggestions\<close> that pass the four filters,
  so the update is written as a map over the list.
\<close>

definition handleOutdatedSuggestions ::
  "audit_context \<Rightarrow> suggestion list \<Rightarrow> string set \<Rightarrow> (jsval \<Rightarrow> string) \<Rightarrow> status
     \<Rightarrow> jsval set option \<Rightarrow> (exn + suggestion list) \<times> event list"
where
  "handleOutdatedSuggestions ctx existingSuggestions newDataKeys buildKey statusToSetForOutdated
       scrapedUrlsSet =
     (let outdated =
            existingOutdatedSuggestions existingSuggestions newDataKeys buildKey scrapedUrlsSet;
          logged =
            [Log Info (''[SuggestionSync] Final count of suggestions to mark as ''
               @ status_name statusToSetForOutdated @ '': '' @ show_nat (length outdated))]
      in if outdated \<noteq> [] then
           (case bulkUpdateStatus (dataAccess ctx) outdated statusToSetForOutdated of
              Some e \<Rightarrow> (Inl e, logged @ [BulkUpdateStatus outdated statusToSetForOutdated])
            | None \<Rightarrow>
                (Inr (map (\<lambda>existing. if existing \<in> set outdated
                                        then setStatus statusToSetForOutdated existing
                                        else existing) existingSuggestions),
                 logged @ [BulkUpdateStatus outdated statusToSetForOutdated]))
         else (Inr existingSuggestions, logged))"

subsection \<open>Merge policies\<close>

definition keepSameDataFunction :: "jsval \<Rightarrow> jsval \<Rightarrow> jsval" where
  "keepSameDataFunction existingData newData = JObj (spread_fields existingData)"

definition keepLatestMergeDataFunction :: "jsval \<Rightarrow> jsval \<Rightarrow> jsval" where
  "keepLatestMergeDataFunction existingData newData = JObj (spread_fields newData)"

definition defaultMergeDataFunction :: "jsval \<Rightarrow> jsval \<Rightarrow> jsval" where
  "defaultMergeDataFunction existingData newData =
     JObj (spread_fields existingData ++\<^sub>f spread_fields newData)"

text \<open>
  A status merge function returns the log lines it writes (level and text) and the new
  status; \<open>None\<close> is \<^verbatim>\<open>null\<close>.
\<close>

definition defaultMergeStatusFunction ::
  "suggestion \<Rightarrow> jsval \<Rightarrow> audit_context \<Rightarrow> (level \<times> string) list \<times> status option"
where
  "defaultMergeStatusFunction existing newDataItem ctx =
     (let currentStatus = getStatus existing
      in if currentStatus = REJECTED then
           ([(Debug, ''REJECTED suggestion found in audit. Preserving REJECTED status.'')], None)
         else if currentStatus = OUTDATED then
           ([(Warn, ''Outdated suggestion found in audit. Possible regression.'')],
            Some (if siteRequiresValidation ctx then PENDING_VALIDATION else NEW))
         else ([], None))"

subsection \<open>\<^verbatim>\<open>syncSuggestions\<close>\<close>

text \<open>
  The parameter object. An optional parameter that was left out is \<open>None\<close>, and the
  function puts its default in place. \<open>mapNewSuggestion\<close>, \<open>buildKey\<close> and the merge
  functions are supplied by the caller and are taken to be pure.
\<close>

record sync_params =
  p_context :: "audit_context option"
  p_opportunity :: opportunity
  p_newData :: "jsval list"
  p_buildKey :: "jsval \<Rightarrow> string"
  p_mapNewSuggestion :: "jsval \<Rightarrow> jsval"
  p_mergeDataFunction :: "(jsval \<Rightarrow> jsval \<Rightarrow> jsval) option"
  p_mergeStatusFunction ::
    "(suggestion \<Rightarrow> jsval \<Rightarrow> audit_context \<Rightarrow> (level \<times> string) list \<times> status option)
       option"
  p_statusToSetForOutdated :: "status option"
  p_scrapedUrlsSet :: "jsval set option"
  p_existingSuggestions :: "suggestion list option"

text \<open>
  \<^verbatim>\<open>new Map(newData.map((data) => [buildKey(data), data]))\<close> followed by \<^verbatim>\<open>get\<close>: the
  last finding with the key wins.
\<close>

definition newDataByKey :: "(jsval \<Rightarrow> string) \<Rightarrow> jsval list \<Rightarrow> string \<Rightarrow> jsval option" where
  "newDataByKey buildKey newData = map_of (rev (map (\<lambda>d. (buildKey d, d)) newData))"

text \<open>
  The body of the \<^verbatim>\<open>map\<close> callback of the update step, for one matched suggestion: the
  object after the three setters, and the log lines of the status merge function.
\<close>

definition updateMatched ::
  "audit_context \<Rightarrow> (jsval \<Rightarrow> jsval \<Rightarrow> jsval)
     \<Rightarrow> (suggestion \<Rightarrow> jsval \<Rightarrow> audit_context \<Rightarrow> (level \<times> string) list \<times> status option)
     \<Rightarrow> (jsval \<Rightarrow> string) \<Rightarrow> jsval list \<Rightarrow> suggestion \<Rightarrow> suggestion \<times> event list"
where
  "updateMatched ctx mergeDataFunction mergeStatusFunction buildKey newData existing =
     (let existingKey = buildKey (getData existing);
          newDataItem = (case newDataByKey buildKey newData existingKey of
                           Some d \<Rightarrow> d | None \<Rightarrow> JUndefined);
          existing1 = setData (mergeDataFunction (getData existing) newDataItem) existing;
          (logged, newStatus) = mergeStatusFunction existing1 newDataItem ctx;
          existing2 = (case newStatus of None \<Rightarrow> existing1
                       | Some st \<Rightarrow> setStatus st existing1)
      in (setUpdatedBy ''system'' existing2, map (\<lambda>(lv, msg). Log lv msg) logged))"

text \<open>\<^verbatim>\<open>Promise.all\<close> rejects with a rejection of one of its promises: here the first in list order.\<close>

fun firstRejection :: "exn option list \<Rightarrow> exn option" where
  "firstRejection [] = None"
| "firstRejection (Some e # rs) = Some e"
| "firstRejection (None # rs) = firstRejection rs"

text \<open>
  The update step: every matched suggestion is changed and \<^verbatim>\<open>save()\<close> is called on it
  before any of the promises is awaited.
\<close>

definition updateExistingSuggestions ::
  "audit_context \<Rightarrow> (jsval \<Rightarrow> jsval \<Rightarrow> jsval)
     \<Rightarrow> (suggestion \<Rightarrow> jsval \<Rightarrow> audit_context \<Rightarrow> (level \<times> string) list \<times> status option)
     \<Rightarrow> (jsval \<Rightarrow> string) \<Rightarrow> jsval list \<Rightarrow> suggestion list
     \<Rightarrow> (exn + suggestion list) \<times> event list"
where
  "updateExistingSuggestions ctx mergeDataFunction mergeStatusFunction buildKey newData
       existingSuggestions =
     (let newDataKeys = set (map buildKey newData);
          upd = updateMatched ctx mergeDataFunction mergeStatusFunction buildKey newData;
          matched = filter (\<lambda>existing. buildKey (getData existing) \<in> newDataKeys)
                      existingSuggestions;
          tr = concat (map (\<lambda>existing. snd (upd existing) @ [Save (fst (upd existing))]) matched);
          after = map (\<lambda>existing. if buildKey (getData existing) \<in> newDataKeys
                                   then fst (upd existing) else existing) existingSuggestions
      in case firstRejection
                (map (\<lambda>existing. saveSuggestion (dataAccess ctx) (fst (upd existing))) matched) of
           Some e \<Rightarrow> (Inl e, tr)
         | None \<Rightarrow> (Inr after, tr))"

definition prepareNewSuggestions ::
  "audit_context \<Rightarrow> (jsval \<Rightarrow> string) \<Rightarrow> (jsval \<Rightarrow> jsval) \<Rightarrow> jsval list \<Rightarrow> suggestion list
     \<Rightarrow> new_suggestion list"
where
  "prepareNewSuggestions ctx buildKey mapNewSuggestion newData existingSuggestions =
     (let existingSuggestionKeys = set (map (\<lambda>s. buildKey (getData s)) existingSuggestions)
      in map (\<lambda>d. \<lparr>mapped = mapNewSuggestion d,
                   initialStatus = (if siteRequiresValidation ctx then PENDING_VALIDATION
                                    else NEW)\<rparr>)
           (filter (\<lambda>d. buildKey d \<notin> existingSuggestionKeys) newData))"

text \<open>\<^verbatim>\<open>suggestions.errorItems[0]?.error || 'Unknown error'\<close>\<close>

definition sampleError :: "error_item list \<Rightarrow> string" where
  "sampleError errs =
     (case errs of
        [] \<Rightarrow> ''Unknown error''
      | e # _ \<Rightarrow> (case error e of
                    Some t \<Rightarrow> if t \<noteq> [] then t else ''Unknown error''
                  | None \<Rightarrow> ''Unknown error''))"

definition renderError :: "error_item \<Rightarrow> string" where
  "renderError e = (case error e of Some t \<Rightarrow> t | None \<Rightarrow> ''undefined'')"

definition logErrorItems :: "string \<Rightarrow> nat \<Rightarrow> error_item list \<Rightarrow> event list" where
  "logErrorItems siteId submitted errs =
     [Log Err (''Suggestions for siteId '' @ siteId @ '' contains '' @ show_nat (length errs)
               @ '' items with errors out of '' @ show_nat submitted @ '' total'')]
     @ map (\<lambda>(index, errorItem).
              Log Err (''Error '' @ show_nat (index + 1) @ ''/'' @ show_nat (length errs)
                       @ '': '' @ renderError errorItem))
         (enumerate 0 (take 5 errs))
     @ (if length errs > 5
        then [Log Err (''... and '' @ show_nat (length errs - 5) @ '' more errors'')]
        else [])"

definition createdCountText :: "add_result \<Rightarrow> string" where
  "createdCountText suggestions =
     (let whole = (case arrayLength suggestions of Some n \<Rightarrow> show_nat n
                   | None \<Rightarrow> ''undefined'')
      in case createdItems suggestions of
           Some cs \<Rightarrow> if cs \<noteq> [] then show_nat (length cs) else whole
         | None \<Rightarrow> whole)"

text \<open>
  The block \<^verbatim>\<open>if (newSuggestions.length > 0) { ... }\<close> that ends \<^verbatim>\<open>syncSuggestions\<close>.
  With error items and \<^verbatim>\<open>createdItems\<close> undefined, \<^verbatim>\<open>undefined <= 0\<close> is false and the
  \<^verbatim>\<open>else\<close> branch reads \<^verbatim>\<open>createdItems.length\<close>, which is a TypeError.
\<close>

text \<open>\<^verbatim>\<open>opportunity.getSiteId?.() || 'unknown'\<close>\<close>

definition siteIdOrUnknown :: "opportunity \<Rightarrow> string" where
  "siteIdOrUnknown opp =
     (case getSiteId opp of
        Some s \<Rightarrow> if s \<noteq> [] then s else ''unknown''
      | None \<Rightarrow> ''unknown'')"

definition addNewSuggestions ::
  "opportunity \<Rightarrow> new_suggestion list \<Rightarrow> (exn + unit) \<times> event list"
where
  "addNewSuggestions opp newSuggestions =
     (if length newSuggestions > 0 then
        (let siteId = siteIdOrUnknown opp;
             tr = [Log Info (''Adding '' @ show_nat (length newSuggestions)
                             @ '' new suggestions for siteId '' @ siteId),
                   AddSuggestions newSuggestions]
         in case addSuggestions opp newSuggestions of
              Inl e \<Rightarrow> (Inl e, tr)
            | Inr suggestions \<Rightarrow>
                (case errorItems suggestions of
                   Some (e # es) \<Rightarrow>
                     (let errs = e # es;
                          tr2 = tr @ logErrorItems siteId (length newSuggestions) errs
                      in case createdItems suggestions of
                           Some [] \<Rightarrow>
                             (Inl (Error (''Failed to create suggestions for siteId '' @ siteId
                                          @ ''. Sample error: '' @ sampleError errs)),
                              tr2 @ [Log Err ''[suggestions.errorItems]''])
                         | Some (c # cs) \<Rightarrow>
                             (Inr (),
                              tr2 @ [Log Warn (''Partial success: Created ''
                                       @ show_nat (length (c # cs)) @ '' suggestions, ''
                                       @ show_nat (length errs) @ '' failed'')])
                         | None \<Rightarrow>
                             (Inl (Error (''Cannot read properties of undefined (reading ''
                                          @ [CHR 0x27] @ ''length'' @ [CHR 0x27] @ '')'')),
                              tr2))
                 | _ \<Rightarrow>
                     (Inr (),
                      tr @ [Log Debug (''Successfully created '' @ createdCountText suggestions
                                       @ '' suggestions for siteId '' @ siteId)])))
      else (Inr (), []))"

text \<open>
  \<^verbatim>\<open>syncSuggestions\<close>. The result is the exception thrown, or the suggestion objects that
  were fetched (or passed in) as they are when the call returns; and the trace.
\<close>

text \<open>\<^verbatim>\<open>prefetchedSuggestions ?? await opportunity.getSuggestions()\<close>\<close>

definition fetchSuggestions :: "sync_params \<Rightarrow> (exn + suggestion list) \<times> event list" where
  "fetchSuggestions p =
     (case p_existingSuggestions p of
        Some xs \<Rightarrow> (Inr xs, [])
      | None \<Rightarrow> (getSuggestions (p_opportunity p), [GetSuggestions]))"

definition syncSuggestions :: "sync_params \<Rightarrow> (exn + suggestion list) \<times> event list" where
  "syncSuggestions p =
     (case p_context p of
        None \<Rightarrow> (Inr (case p_existingSuggestions p of Some xs \<Rightarrow> xs | None \<Rightarrow> []), [])
      | Some ctx \<Rightarrow>
          (let buildKey = p_buildKey p;
               newData = p_newData p;
               mergeDataFunction = (case p_mergeDataFunction p of Some f \<Rightarrow> f
                                    | None \<Rightarrow> defaultMergeDataFunction);
               mergeStatusFunction = (case p_mergeStatusFunction p of Some f \<Rightarrow> f
                                      | None \<Rightarrow> defaultMergeStatusFunction);
               statusToSetForOutdated = (case p_statusToSetForOutdated p of Some st \<Rightarrow> st
                                         | None \<Rightarrow> OUTDATED);
               newDataKeys = set (map buildKey newData);
               (fetched, tr0) = fetchSuggestions p
           in case fetched of
                Inl e \<Rightarrow> (Inl e, tr0)
              | Inr existingSuggestions \<Rightarrow>
                  (case handleOutdatedSuggestions ctx existingSuggestions newDataKeys buildKey
                          statusToSetForOutdated (p_scrapedUrlsSet p) of
                     (Inl e, tr1) \<Rightarrow> (Inl e, tr0 @ tr1)
                   | (Inr marked, tr1) \<Rightarrow>
                       (case updateExistingSuggestions ctx mergeDataFunction mergeStatusFunction
                               buildKey newData marked of
                          (Inl e, tr2) \<Rightarrow> (Inl e, tr0 @ tr1 @ tr2)
                        | (Inr updated, tr2) \<Rightarrow>
                            (case addNewSuggestions (p_opportunity p)
                                    (prepareNewSuggestions ctx buildKey (p_mapNewSuggestion p)
                                       newData existingSuggestions) of
                               (Inl e, tr3) \<Rightarrow> (Inl e, tr0 @ tr1 @ tr2 @ tr3)
                             | (Inr u, tr3) \<Rightarrow> (Inr updated, tr0 @ tr1 @ tr2 @ tr3))))))"

subsection \<open>The bounded concurrency executor\<close>

definition MAX_CONCURRENT_CHECKS :: nat where
  "MAX_CONCURRENT_CHECKS = 5"

text \<open>
  Modelled from the spec: \<^verbatim>\<open>limitConcurrencyAllSettled\<close> is imported from
  \<^verbatim>\<open>src/support/utils.js\<close>, which is not among the sources. The specification says of it:
  given an ordered sequence of task thunks and a maximum concurrency, it runs all tasks and
  returns the results in the original order, where each result is either the resolved
  value of the task or a failure marker, and a rejection of one task never aborts the batch.

  A task is given by what running it yields: its outcome and the events it emits. The
  failure marker is \<open>None\<close>. The tasks run in list order; the cap only bounds how many are
  in flight and has no part in the result.
\<close>

definition limitConcurrencyAllSettled ::
  "((exn + 'a) \<times> event list) list \<Rightarrow> nat \<Rightarrow> 'a option list \<times> event list"
where
  "limitConcurrencyAllSettled tasks maxConcurrency =
     (map (\<lambda>task. case fst task of Inl e \<Rightarrow> None | Inr v \<Rightarrow> Some v) tasks,
      concat (map snd tasks))"

text \<open>\<^verbatim>\<open>await Promise.all(promises)\<close>: the values in order, or a rejection.\<close>

fun promiseAll :: "(exn + 'a) list \<Rightarrow> exn + 'a list" where
  "promiseAll [] = Inr []"
| "promiseAll (Inl e # rs) = Inl e"
| "promiseAll (Inr v # rs) = (case promiseAll rs of Inl e \<Rightarrow> Inl e | Inr vs \<Rightarrow> Inr (v # vs))"

subsection \<open>\<^verbatim>\<open>getDisappearedSuggestions\<close> and \<^verbatim>\<open>reconcileDisappearedSuggestions\<close>\<close>

definition AUTHOR_ONLY_OPPORTUNITY_TYPES :: "string list" where
  "AUTHOR_ONLY_OPPORTUNITY_TYPES = [''security-permissions-redundant'', ''security-permissions'']"

definition getDisappearedSuggestions ::
  "suggestion list \<Rightarrow> string set \<Rightarrow> (jsval \<Rightarrow> string) \<Rightarrow> suggestion list"
where
  "getDisappearedSuggestions existingSuggestions newDataKeys buildKey =
     filter (\<lambda>suggestion. buildKey (getData suggestion) \<notin> newDataKeys) existingSuggestions"

text \<open>
  The reconciler changes suggestion objects that its caller goes on using, so here the
  objects live in a store: a function from references to objects. A list of suggestions is
  a list of references.
\<close>

type_synonym heap = "nat \<Rightarrow> suggestion"

text \<open>
  The loop \<^verbatim>\<open>for (const suggestion of fixedSuggestions)\<close>. It returns the store, the
  collected fix entity payloads and the trace.
\<close>

fun markFixedSuggestions ::
  "(suggestion \<Rightarrow> exn option) \<Rightarrow> (suggestion \<Rightarrow> opportunity \<Rightarrow> bool \<Rightarrow> exn + jsval) option
     \<Rightarrow> opportunity \<Rightarrow> bool \<Rightarrow> nat list \<Rightarrow> heap \<Rightarrow> heap \<times> jsval list \<times> event list"
where
  "markFixedSuggestions save buildFixEntityPayload opp isAuthorOnly [] h = (h, [], [])"
| "markFixedSuggestions save buildFixEntityPayload opp isAuthorOnly (r # rs) h =
     (let announce = Log Debug (''[reconcileDisappearedSuggestions] Marking suggestion ''
                                @ getId (h r) @ '' as FIXED'');
          suggestion = setUpdatedBy ''system'' (setStatus FIXED (h r));
          h1 = h(r := suggestion);
          (suggestionMarkedFixed, tr1) =
            (case save suggestion of
               None \<Rightarrow> (True, [Save suggestion])
             | Some e \<Rightarrow>
                 (False,
                  [Save suggestion,
                   Log Warn (''Failed to mark suggestion '' @ getId suggestion
                             @ '' as FIXED: '' @ message e)]));
          (payloads, tr2) =
            (case buildFixEntityPayload of
               Some build \<Rightarrow>
                 if suggestionMarkedFixed then
                   (case build suggestion opp isAuthorOnly of
                      Inr fixEntity \<Rightarrow>
                        (if truthy fixEntity then [fixEntity] else [],
                         [BuildFixEntityPayload suggestion isAuthorOnly])
                    | Inl e \<Rightarrow>
                        ([],
                         [BuildFixEntityPayload suggestion isAuthorOnly,
                          Log Warn (''Failed building fix entity for suggestion ''
                                    @ getId suggestion @ '': '' @ message e)]))
                 else ([], [])
             | None \<Rightarrow> ([], []));
          (h2, rest, tr3) = markFixedSuggestions save buildFixEntityPayload opp isAuthorOnly rs h1
      in (h2, payloads @ rest, announce # tr1 @ tr2 @ tr3))"

text \<open>One check task: \<^verbatim>\<open>isIssueFixedWithAISuggestion?.(suggestion)\<close> paired with the reference.\<close>

definition checkTask ::
  "(suggestion \<Rightarrow> exn + jsval) option \<Rightarrow> heap \<Rightarrow> nat \<Rightarrow> (exn + nat \<times> jsval) \<times> event list"
where
  "checkTask isIssueFixedWithAISuggestion h r =
     (case isIssueFixedWithAISuggestion of
        None \<Rightarrow> (Inr (r, JUndefined), [])
      | Some isFixed \<Rightarrow>
          (case isFixed (h r) of
             Inl e \<Rightarrow> (Inl e, [IsIssueFixedWithAISuggestion (h r)])
           | Inr v \<Rightarrow> (Inr (r, v), [IsIssueFixedWithAISuggestion (h r)])))"

text \<open>\<^verbatim>\<open>checkResults.filter((r) => r?.isFixed).map((r) => r.suggestion)\<close>\<close>

definition fixedOf :: "(nat \<times> jsval) option list \<Rightarrow> nat list" where
  "fixedOf checkResults =
     concat (map (\<lambda>res. case res of
                          Some (r, isFixed) \<Rightarrow> if truthy isFixed then [r] else []
                        | None \<Rightarrow> []) checkResults)"

text \<open>The final batch \<^verbatim>\<open>opportunity.addFixEntities(fixEntityObjects)\<close> with its own handler.\<close>

definition addCollectedFixEntities :: "opportunity \<Rightarrow> jsval list \<Rightarrow> event list" where
  "addCollectedFixEntities opp fixEntityObjects =
     (case addFixEntities opp of
        Some add \<Rightarrow>
          if length fixEntityObjects > 0 then
            (case add fixEntityObjects of
               None \<Rightarrow>
                 [AddFixEntities fixEntityObjects,
                  Log Info (''Added '' @ show_nat (length fixEntityObjects)
                            @ '' fix entities for opportunity '' @ getOpportunityId opp)]
             | Some e \<Rightarrow>
                 [AddFixEntities fixEntityObjects,
                  Log Warn (''Failed to add fix entities on opportunity ''
                            @ getOpportunityId opp @ '': '' @ message e)])
          else []
      | None \<Rightarrow> [])"

text \<open>The body of the outer \<^verbatim>\<open>try\<close> of \<^verbatim>\<open>reconcileDisappearedSuggestions\<close>.\<close>

definition reconcileTry ::
  "(suggestion \<Rightarrow> exn option) \<Rightarrow> opportunity \<Rightarrow> nat list \<Rightarrow> (suggestion \<Rightarrow> exn + jsval) option
     \<Rightarrow> (suggestion \<Rightarrow> opportunity \<Rightarrow> bool \<Rightarrow> exn + jsval) option \<Rightarrow> bool \<Rightarrow> heap
     \<Rightarrow> (exn + unit) \<times> heap \<times> event list"
where
  "reconcileTry save opp disappearedSuggestions isIssueFixedWithAISuggestion
       buildFixEntityPayload isAuthorOnly h =
     (let candidates = filter (\<lambda>r. getStatus (h r) = NEW) disappearedSuggestions
      in if candidates = [] then (Inr (), h, [])
         else
           (let checkTasks = map (checkTask isIssueFixedWithAISuggestion h) candidates;
                (checkResults, tr1) = limitConcurrencyAllSettled checkTasks MAX_CONCURRENT_CHECKS;
                fixedSuggestions = fixedOf checkResults;
                (h', fixEntityObjects, tr2) =
                  markFixedSuggestions save buildFixEntityPayload opp isAuthorOnly
                    fixedSuggestions h
            in (Inr (), h', tr1 @ tr2 @ addCollectedFixEntities opp fixEntityObjects)))"

text \<open>
  \<^verbatim>\<open>reconcileDisappearedSuggestions\<close>: the \<^verbatim>\<open>try\<close> body with the outer \<^verbatim>\<open>catch\<close>. The first
  argument is the outcome of \<^verbatim>\<open>save()\<close> on a suggestion object.
\<close>

definition reconcileDisappearedSuggestions ::
  "(suggestion \<Rightarrow> exn option) \<Rightarrow> opportunity \<Rightarrow> nat list \<Rightarrow> (suggestion \<Rightarrow> exn + jsval) option
     \<Rightarrow> (suggestion \<Rightarrow> opportunity \<Rightarrow> bool \<Rightarrow> exn + jsval) option \<Rightarrow> bool \<Rightarrow> heap
     \<Rightarrow> (exn + unit) \<times> heap \<times> event list"
where
  "reconcileDisappearedSuggestions save opp disappearedSuggestions isIssueFixedWithAISuggestion
       buildFixEntityPayload isAuthorOnly h =
     (case reconcileTry save opp disappearedSuggestions isIssueFixedWithAISuggestion
             buildFixEntityPayload isAuthorOnly h of
        (Inl e, h', tr) \<Rightarrow>
          (Inr (), h',
           tr @ [Log Warn (''Failed reconciliation for disappeared suggestions: '' @ message e)])
      | (Inr u, h', tr) \<Rightarrow> (Inr (), h', tr))"

subsection \<open>\<^verbatim>\<open>publishDeployedFixEntities\<close>\<close>

text \<open>\<^verbatim>\<open>const { data: suggestions = [] } = await ...; return suggestions[0]\<close>\<close>

definition firstSuggestion :: "suggestion list \<Rightarrow> suggestion option" where
  "firstSuggestion suggestions = (case suggestions of [] \<Rightarrow> None | s # rest \<Rightarrow> Some s)"

text \<open>
  The fast-path loop over the fetched suggestions: \<open>True\<close> when it returns
  \<^verbatim>\<open>{ fixEntity, allResolved: false }\<close>, \<open>False\<close> when it runs to its end.
\<close>

fun fastPathReturns ::
  "string set option \<Rightarrow> (jsval \<Rightarrow> string) option \<Rightarrow> suggestion option list \<Rightarrow> bool"
where
  "fastPathReturns currentDataKeys buildKey [] = False"
| "fastPathReturns currentDataKeys buildKey (None # rest) = True"
| "fastPathReturns currentDataKeys buildKey (Some suggestion # rest) =
     (case (currentDataKeys, buildKey) of
        (Some keys, Some bk) \<Rightarrow>
          if bk (getData suggestion) \<in> keys then True
          else fastPathReturns currentDataKeys buildKey rest
      | _ \<Rightarrow> fastPathReturns currentDataKeys buildKey rest)"

text \<open>One HTTP check task: \<^verbatim>\<open>isIssueResolvedOnProduction?.(suggestion)\<close>.\<close>

definition httpCheckTask ::
  "(suggestion \<Rightarrow> exn + jsval) option \<Rightarrow> suggestion \<Rightarrow> (exn + jsval) \<times> event list"
where
  "httpCheckTask isIssueResolvedOnProduction suggestion =
     (case isIssueResolvedOnProduction of
        None \<Rightarrow> (Inr JUndefined, [])
      | Some isResolved \<Rightarrow> (isResolved suggestion, [IsIssueResolvedOnProduction suggestion]))"

text \<open>
  \<^verbatim>\<open>checkFixEntity\<close>. When the fast-path loop has run to its end every fetched suggestion
  is present, so the tasks are built from the present ones.
\<close>

definition checkFixEntity ::
  "(string \<Rightarrow> exn + suggestion list) \<Rightarrow> (suggestion \<Rightarrow> exn + jsval) option \<Rightarrow> string set option
     \<Rightarrow> (jsval \<Rightarrow> string) option \<Rightarrow> fix_entity \<Rightarrow> (exn + fix_entity \<times> bool) \<times> event list"
where
  "checkFixEntity getLinked isIssueResolvedOnProduction currentDataKeys buildKey fixEntity =
     (let suggestionIds = (case getSuggestionIds fixEntity of Some ids \<Rightarrow> ids | None \<Rightarrow> [])
      in if suggestionIds = [] then (Inr (fixEntity, False), [])
         else
           (let tr = map GetFixEntitiesBySuggestionId suggestionIds
            in case promiseAll (map getLinked suggestionIds) of
                 Inl e \<Rightarrow> (Inl e, tr)
               | Inr fetched \<Rightarrow>
                   (let suggestionResults = map firstSuggestion fetched
                    in if fastPathReturns currentDataKeys buildKey suggestionResults
                       then (Inr (fixEntity, False), tr)
                       else
                         (let httpCheckTasks =
                                map (httpCheckTask isIssueResolvedOnProduction)
                                  (concat (map (\<lambda>res. case res of Some s \<Rightarrow> [s] | None \<Rightarrow> [])
                                             suggestionResults));
                              (httpResults, tr2) =
                                limitConcurrencyAllSettled httpCheckTasks MAX_CONCURRENT_CHECKS;
                              allResolved = list_all (\<lambda>r. r = Some (JBool True)) httpResults
                          in (Inr (fixEntity, allResolved), tr @ tr2)))))"

text \<open>
  The loop \<^verbatim>\<open>for (const result of results)\<close>. Each result is paired with the deployed fix
  entity of its task; the loop returns the fix entity objects as they are afterwards.
\<close>

fun publishResolved ::
  "(fix_entity \<Rightarrow> exn option) \<Rightarrow> (fix_entity \<times> (fix_entity \<times> bool) option) list
     \<Rightarrow> fix_entity list \<times> event list"
where
  "publishResolved save [] = ([], [])"
| "publishResolved save ((deployed, result) # rest) =
     (let (now, tr) =
            (case result of
               Some (fixEntity, allResolved) \<Rightarrow>
                 if allResolved then
                   (let published = fixEntity\<lparr>getFixStatus := PUBLISHED\<rparr>
                    in case save published of
                         None \<Rightarrow>
                           (published,
                            [SaveFixEntity published,
                             Log Info (''Published fix entity '' @ getFixId published)])
                       | Some e \<Rightarrow>
                           (published,
                            [SaveFixEntity published,
                             Log Debug (''Failed to save fix entity: '' @ message e)]))
                 else (deployed, [])
             | None \<Rightarrow> (deployed, []));
          (others, tr') = publishResolved save rest
      in (now # others, tr @ tr'))"

text \<open>\<^verbatim>\<open>currentAuditData && buildKey ? new Set(currentAuditData.map(buildKey)) : null\<close>\<close>

definition currentKeys :: "jsval list option \<Rightarrow> (jsval \<Rightarrow> string) option \<Rightarrow> string set option" where
  "currentKeys currentAuditData buildKey =
     (case (currentAuditData, buildKey) of
        (Some findings, Some bk) \<Rightarrow> Some (set (map bk findings))
      | _ \<Rightarrow> None)"

text \<open>
  The body of the \<^verbatim>\<open>try\<close> of \<^verbatim>\<open>publishDeployedFixEntities\<close>. The lookup resolves to
  \<open>None\<close> when its value is not an array.
\<close>

definition publishTry ::
  "string \<Rightarrow> audit_context \<Rightarrow> (suggestion \<Rightarrow> exn + jsval) option \<Rightarrow> jsval list option
     \<Rightarrow> (jsval \<Rightarrow> string) option \<Rightarrow> (exn + unit) \<times> fix_entity list \<times> event list"
where
  "publishTry opportunityId ctx isIssueResolvedOnProduction currentAuditData buildKey =
     (case (allByOpportunityIdAndStatus (dataAccess ctx),
            getFixEntitiesBySuggestionId (dataAccess ctx)) of
        (Some allBy, Some getLinked) \<Rightarrow>
          (case allBy opportunityId DEPLOYED of
             Inl e \<Rightarrow> (Inl e, [], [AllByOpportunityIdAndStatus opportunityId DEPLOYED])
           | Inr None \<Rightarrow> (Inr (), [], [AllByOpportunityIdAndStatus opportunityId DEPLOYED])
           | Inr (Some deployedFixEntities) \<Rightarrow>
               if deployedFixEntities = [] then
                 (Inr (), [], [AllByOpportunityIdAndStatus opportunityId DEPLOYED])
               else
                 (let currentDataKeys = currentKeys currentAuditData buildKey;
                      fixEntityTasks =
                        map (checkFixEntity getLinked isIssueResolvedOnProduction currentDataKeys
                               buildKey) deployedFixEntities;
                      (results, tr1) =
                        limitConcurrencyAllSettled fixEntityTasks MAX_CONCURRENT_CHECKS;
                      (after, tr2) =
                        publishResolved (saveFixEntity (dataAccess ctx))
                          (zip deployedFixEntities results)
                  in (Inr (), after,
                      AllByOpportunityIdAndStatus opportunityId DEPLOYED # tr1 @ tr2)))
      | _ \<Rightarrow> (Inr (), [], [Log Debug ''FixEntity APIs not available; skipping publish.'']))"

text \<open>
  \<^verbatim>\<open>publishDeployedFixEntities\<close>. Besides the outcome and the trace the result holds the
  deployed fix entity objects that were fetched, as they are when the call returns.
\<close>

definition publishDeployedFixEntities ::
  "string \<Rightarrow> audit_context option \<Rightarrow> (suggestion \<Rightarrow> exn + jsval) option \<Rightarrow> jsval list option
     \<Rightarrow> (jsval \<Rightarrow> string) option \<Rightarrow> (exn + unit) \<times> fix_entity list \<times> event list"
where
  "publishDeployedFixEntities opportunityId context_opt isIssueResolvedOnProduction
       currentAuditData buildKey =
     (case context_opt of
        None \<Rightarrow> (Inr (), [], [])
      | Some ctx \<Rightarrow>
          (case publishTry opportunityId ctx isIssueResolvedOnProduction currentAuditData
                  buildKey of
             (Inl e, after, tr) \<Rightarrow>
               (Inr (), after,
                tr @ [Log Warn (''Failed to publish deployed fix entities: '' @ message e)])
           | (Inr u, after, tr) \<Rightarrow> (Inr (), after, tr)))"

subsection \<open>\<^verbatim>\<open>syncSuggestionsWithPublishDetection\<close>\<close>

text \<open>
  The references of the fetched suggestions are their positions;
  \<open>disappearedRefs\<close> is \<^verbatim>\<open>getDisappearedSuggestions\<close> on references.
\<close>

definition disappearedRefs ::
  "suggestion list \<Rightarrow> string set \<Rightarrow> (jsval \<Rightarrow> string) \<Rightarrow> nat list"
where
  "disappearedRefs existingSuggestions newDataKeys buildKey =
     filter (\<lambda>r. buildKey (getData (existingSuggestions ! r)) \<notin> newDataKeys)
       [0..<length existingSuggestions]"

text \<open>
  The three further parameters are \<^verbatim>\<open>isIssueFixedWithAISuggestion\<close>,
  \<^verbatim>\<open>buildFixEntityPayload\<close> and \<^verbatim>\<open>isIssueResolvedOnProduction\<close>; \<open>None\<close> is a parameter
  that is not a function. The wrapper does not read \<open>p_existingSuggestions\<close>: it always
  fetches, and passes what it fetched on.
\<close>

definition syncSuggestionsWithPublishDetection ::
  "sync_params \<Rightarrow> (suggestion \<Rightarrow> exn + jsval) option
     \<Rightarrow> (suggestion \<Rightarrow> opportunity \<Rightarrow> bool \<Rightarrow> exn + jsval) option
     \<Rightarrow> (suggestion \<Rightarrow> exn + jsval) option \<Rightarrow> (exn + suggestion list) \<times> event list"
where
  "syncSuggestionsWithPublishDetection p isIssueFixedWithAISuggestion buildFixEntityPayload
       isIssueResolvedOnProduction =
     (case p_context p of
        None \<Rightarrow> (Inr [], [])
      | Some ctx \<Rightarrow>
          (let opp = p_opportunity p;
               isAuthorOnly = (case getType opp of
                                 Some opportunityType \<Rightarrow>
                                   opportunityType \<in> set AUTHOR_ONLY_OPPORTUNITY_TYPES
                               | None \<Rightarrow> False);
               newDataKeys = set (map (p_buildKey p) (p_newData p))
           in case getSuggestions opp of
                Inl e \<Rightarrow> (Inl e, [GetSuggestions])
              | Inr existingSuggestions \<Rightarrow>
                  (let disappearedSuggestions =
                         disappearedRefs existingSuggestions newDataKeys (p_buildKey p);
                       (h, tr1) =
                         (case (isIssueFixedWithAISuggestion, buildFixEntityPayload) of
                            (Some isFixed, Some build) \<Rightarrow>
                              snd (reconcileDisappearedSuggestions
                                     (saveSuggestion (dataAccess ctx)) opp
                                     disappearedSuggestions (Some isFixed) (Some build)
                                     isAuthorOnly (\<lambda>r. existingSuggestions ! r))
                          | _ \<Rightarrow> (\<lambda>r. existingSuggestions ! r, []));
                       tr2 =
                         (if isAuthorOnly then
                            [Log Debug
                               ''[syncSuggestionsWithPublishDetection] Skipping publish for author-only type'']
                          else
                            (case isIssueResolvedOnProduction of
                               Some isResolved \<Rightarrow>
                                 snd (snd (publishDeployedFixEntities (getOpportunityId opp)
                                             (Some ctx) (Some isResolved) (Some (p_newData p))
                                             (Some (p_buildKey p))))
                             | None \<Rightarrow> []));
                       (result, tr3) =
                         syncSuggestions
                           (p\<lparr>p_existingSuggestions :=
                                Some (map h [0..<length existingSuggestions])\<rparr>)
                   in (result, GetSuggestions # tr1 @ tr2 @ tr3))))"

subsection \<open>Notions used to state the properties\<close>

text \<open>The suggestion object after the two setters of the reconciler loop.\<close>

definition markFixed :: "suggestion \<Rightarrow> suggestion" where
  "markFixed s = setUpdatedBy ''system'' (setStatus FIXED s)"


text \<open>
  The events that only the fix publication pipeline emits: the fix entity lookup, the fetch
  of a linked suggestion, a call of the production-resolution predicate, the save of a fix
  entity.
\<close>

fun isPublishEvent :: "event \<Rightarrow> bool" where
  "isPublishEvent (AllByOpportunityIdAndStatus oid st) = True"
| "isPublishEvent (GetFixEntitiesBySuggestionId sid) = True"
| "isPublishEvent (IsIssueResolvedOnProduction s) = True"
| "isPublishEvent (SaveFixEntity fe) = True"
| "isPublishEvent ev = False"

text \<open>
  A suggestion on which a run with the default merge functions, the findings \<open>newData\<close>,
  the status \<open>st\<close> for outdated suggestions and the filter \<open>scrapedUrlsSet\<close> has nothing
  left to do. If its key is the key of a finding, it is not \<^verbatim>\<open>OUTDATED\<close> and merging the
  finding into its data gives its data; otherwise, if the outdating step selects it, it
  already has the status \<open>st\<close>.
\<close>

definition settled ::
  "(jsval \<Rightarrow> string) \<Rightarrow> jsval list \<Rightarrow> status \<Rightarrow> jsval set option \<Rightarrow> suggestion \<Rightarrow> bool"
where
  "settled buildKey newData st scrapedUrlsSet x =
     (if buildKey (getData x) \<in> set (map buildKey newData) then
        getStatus x \<noteq> OUTDATED
        \<and> (\<exists>d \<in> set newData. buildKey d = buildKey (getData x)
                 \<and> defaultMergeDataFunction (getData x) d = getData x)
      else
        (getStatus x \<notin> set [OUTDATED, FIXED, ERROR, SKIPPED, REJECTED, APPROVED, IN_PROGRESS,
                               PENDING_VALIDATION]
         \<and> \<not> isDeployed x \<and> urlWasScraped scrapedUrlsSet x
         \<longrightarrow> getStatus x = st))"


subsection \<open>Concrete inputs\<close>

text \<open>
  The inputs at which the theorems below are instantiated; several follow the scenarios of
  \<^verbatim>\<open>test/utils/data-access.test.js\<close>.
\<close>

definition okDataAccess :: dataAccess where
  "okDataAccess =
     \<lparr>bulkUpdateStatus = (\<lambda>records st. None),
      saveSuggestion = (\<lambda>s. None),
      allByOpportunityIdAndStatus = Some (\<lambda>oid st. Inr (Some [])),
      getFixEntitiesBySuggestionId = Some (\<lambda>sid. Inr []),
      saveFixEntity = (\<lambda>fe. None)\<rparr>"

definition okContext :: audit_context where
  "okContext = \<lparr>dataAccess = okDataAccess, site = Some \<lparr>requiresValidation = JBool False\<rparr>\<rparr>"

definition keyOf :: "jsval \<Rightarrow> string" where
  "keyOf d = (case get_prop d ''key'' of JStr s \<Rightarrow> s | _ \<Rightarrow> ''undefined'')"

definition finding :: "string \<Rightarrow> jsval" where
  "finding k = JObj (fmap_of_list [(''key'', JStr k)])"

definition wrapData :: "jsval \<Rightarrow> jsval" where
  "wrapData d = JObj (fmap_of_list [(''type'', JStr ''TYPE''), (''data'', d)])"






definition urlKeyOf :: "jsval \<Rightarrow> string" where
  "urlKeyOf d =
     (case get_prop d ''url'' of JStr u \<Rightarrow> u | _ \<Rightarrow> ''undefined'') @ ''|'' @ keyOf d"

definition page :: "string \<Rightarrow> (string \<times> jsval) list \<Rightarrow> status \<Rightarrow> suggestion" where
  "page n extra st =
     \<lparr>getId = n, getStatus = st,
      getData = JObj (fmap_of_list ([(''url'', JStr (''https://example.com/page'' @ n)),
                                     (''key'', JStr (''page'' @ n))] @ extra)),
      getUpdatedBy = ''audit''\<rparr>"

definition deployedPages :: "suggestion list" where
  "deployedPages =
     [page ''1'' [(''tokowakaDeployed'', JNum 1769607504287)] NEW,
      page ''2'' [(''edgeDeployed'', JNum 1769607504287)] NEW,
      page ''3'' [] NEW]"

definition scrapedPages :: "jsval set" where
  "scrapedPages = {JStr ''https://example.com/page1'', JStr ''https://example.com/page2'',
                   JStr ''https://example.com/page3'', JStr ''https://example.com/page4''}"

definition retitled :: "string \<Rightarrow> jsval" where
  "retitled k = JObj (fmap_of_list [(''key'', JStr k), (''title'', JStr ''new title'')])"





definition noUrl :: "suggestion list" where
  "noUrl = [\<lparr>getId = ''1'', getStatus = NEW, getData = finding ''1'', getUpdatedBy = ''audit''\<rparr>]"

definition linkedSuggestion :: suggestion where
  "linkedSuggestion =
     \<lparr>getId = ''sugg-1'', getStatus = FIXED, getData = finding ''existing-key'',
      getUpdatedBy = ''system''\<rparr>"

definition fixOne :: fix_entity where
  "fixOne = \<lparr>getFixId = ''fix-1'', getFixStatus = DEPLOYED, getSuggestionIds = Some [''sugg-1'']\<rparr>"

definition fixUnlinked :: fix_entity where
  "fixUnlinked = \<lparr>getFixId = ''fix-2'', getFixStatus = DEPLOYED, getSuggestionIds = Some []\<rparr>"

definition lookupLinked :: "string \<Rightarrow> exn + suggestion list" where
  "lookupLinked sid = (if sid = ''sugg-1'' then Inr [linkedSuggestion] else Inr [])"

definition alwaysResolved :: "suggestion \<Rightarrow> exn + jsval" where
  "alwaysResolved s = Inr (JBool True)"

definition deployedLookup :: "string \<Rightarrow> fix_status \<Rightarrow> exn + fix_entity list option" where
  "deployedLookup oid st = Inr (Some [fixOne, fixUnlinked])"

definition publishContext :: audit_context where
  "publishContext =
     okContext\<lparr>dataAccess := okDataAccess\<lparr>allByOpportunityIdAndStatus := Some deployedLookup,
                                          getFixEntitiesBySuggestionId := Some lookupLinked\<rparr>\<rparr>"

definition persist :: "new_suggestion \<Rightarrow> suggestion" where
  "persist n =
     \<lparr>getId = ''created'', getStatus = initialStatus n, getData = get_prop (mapped n) ''data'',
      getUpdatedBy = ''system''\<rparr>"

definition createAll :: "new_suggestion list \<Rightarrow> exn + add_result" where
  "createAll ns = Inr \<lparr>createdItems = Some (map persist ns), errorItems = Some [],
                       arrayLength = None\<rparr>"

definition authorOnlyOpportunity :: opportunity where
  "authorOnlyOpportunity =
     \<lparr>getOpportunityId = ''opp-id'', getType = Some ''security-permissions-redundant'',
      getSiteId = Some ''site-id'', getSuggestions = Inr [],
      addSuggestions = createAll, addFixEntities = None\<rparr>"

definition authorOnlySync :: sync_params where
  "authorOnlySync =
     \<lparr>p_context = Some publishContext, p_opportunity = authorOnlyOpportunity,
      p_newData = [finding ''1''], p_buildKey = keyOf, p_mapNewSuggestion = wrapData,
      p_mergeDataFunction = None, p_mergeStatusFunction = None,
      p_statusToSetForOutdated = None, p_scrapedUrlsSet = None,
      p_existingSuggestions = None\<rparr>"








definition acceptFixEntities :: "jsval list \<Rightarrow> exn option" where
  "acceptFixEntities ps = None"

definition fixOpportunity :: opportunity where
  "fixOpportunity =
     \<lparr>getOpportunityId = ''opp-id'', getType = Some ''broken-backlinks'',
      getSiteId = Some ''site-id'', getSuggestions = Inr [],
      addSuggestions = createAll, addFixEntities = Some acceptFixEntities\<rparr>"

definition wrapKey :: "jsval \<Rightarrow> jsval" where
  "wrapKey d =
     JObj (fmap_of_list [(''type'', JStr ''TYPE''),
                         (''data'', JObj (fmap_of_list [(''key'', get_prop d ''key'')]))])"

definition keyOnlyNew :: new_suggestion where
  "keyOnlyNew = \<lparr>mapped = wrapKey (retitled ''1''), initialStatus = NEW\<rparr>"

definition keyOnlyCreated :: suggestion where
  "keyOnlyCreated = persist keyOnlyNew"

definition keyOnlyFirstRun :: sync_params where
  "keyOnlyFirstRun =
     \<lparr>p_context = Some okContext, p_opportunity = fixOpportunity,
      p_newData = [retitled ''1''], p_buildKey = keyOf, p_mapNewSuggestion = wrapKey,
      p_mergeDataFunction = None, p_mergeStatusFunction = None,
      p_statusToSetForOutdated = None, p_scrapedUrlsSet = None,
      p_existingSuggestions = Some []\<rparr>"

definition keyOnlySecondRun :: sync_params where
  "keyOnlySecondRun = keyOnlyFirstRun\<lparr>p_existingSuggestions := Some [keyOnlyCreated]\<rparr>"

definition staleStore :: "suggestion list" where
  "staleStore =
     [\<lparr>getId = ''2'', getStatus = OUTDATED, getData = finding ''2'', getUpdatedBy = ''user''\<rparr>,
      \<lparr>getId = ''9'', getStatus = NEW, getData = finding ''9'', getUpdatedBy = ''user''\<rparr>]"

definition repeatedSync :: sync_params where
  "repeatedSync =
     \<lparr>p_context = Some okContext, p_opportunity = fixOpportunity,
      p_newData = [retitled ''1'', retitled ''2''], p_buildKey = keyOf,
      p_mapNewSuggestion = wrapData,
      p_mergeDataFunction = None, p_mergeStatusFunction = None,
      p_statusToSetForOutdated = None, p_scrapedUrlsSet = None,
      p_existingSuggestions = Some staleStore\<rparr>"

definition repeatedCreated :: "suggestion list" where
  "repeatedCreated = [persist \<lparr>mapped = wrapData (retitled ''1''), initialStatus = NEW\<rparr>]"

section \<open>Properties of the synchronizer\<close>

subsection \<open>Auxiliary facts\<close>

lemma handleOutdated_length:
  "handleOutdatedSuggestions ctx xs keys bk st scr = (Inr marked, tr) \<Longrightarrow> length marked = length xs"
  by (auto simp: handleOutdatedSuggestions_def Let_def split: if_splits option.splits)

lemma handleOutdated_nth:
  "handleOutdatedSuggestions ctx xs keys bk st scr = (Inr marked, tr) \<Longrightarrow> i < length xs \<Longrightarrow>
   marked ! i = (if xs ! i \<in> set (existingOutdatedSuggestions xs keys bk scr)
                 then setStatus st (xs ! i) else xs ! i)"
  by (auto simp: handleOutdatedSuggestions_def Let_def split: if_splits option.splits)

lemma outdated_iff:
  "x \<in> set (existingOutdatedSuggestions xs keys bk scr) \<longleftrightarrow>
     x \<in> set xs \<and> bk (getData x) \<notin> keys
     \<and> getStatus x \<notin> {OUTDATED, FIXED, ERROR, SKIPPED, REJECTED, APPROVED, IN_PROGRESS, PENDING_VALIDATION}
     \<and> \<not> isDeployed x \<and> urlWasScraped scr x"
  by (auto simp: existingOutdatedSuggestions_def)

lemma updateExisting_length:
  "updateExistingSuggestions ctx md ms bk nd xs = (Inr out, tr) \<Longrightarrow> length out = length xs"
  by (auto simp: updateExistingSuggestions_def Let_def split: option.splits)

lemma updateExisting_nth:
  "updateExistingSuggestions ctx md ms bk nd xs = (Inr out, tr) \<Longrightarrow> i < length xs \<Longrightarrow>
   out ! i = (if bk (getData (xs ! i)) \<in> set (map bk nd)
              then fst (updateMatched ctx md ms bk nd (xs ! i)) else xs ! i)"
  by (auto simp: updateExistingSuggestions_def Let_def split: option.splits)

lemma syncSuggestions_Inr:
  assumes "syncSuggestions p = (Inr out, tr)" and "p_context p = Some ctx"
  shows "\<exists>existing tr0 marked tr1 tr2 tr3.
           fetchSuggestions p = (Inr existing, tr0)
         \<and> handleOutdatedSuggestions ctx existing (set (map (p_buildKey p) (p_newData p)))
              (p_buildKey p) (case p_statusToSetForOutdated p of Some st \<Rightarrow> st | None \<Rightarrow> OUTDATED)
              (p_scrapedUrlsSet p) = (Inr marked, tr1)
         \<and> updateExistingSuggestions ctx
              (case p_mergeDataFunction p of Some f \<Rightarrow> f | None \<Rightarrow> defaultMergeDataFunction)
              (case p_mergeStatusFunction p of Some f \<Rightarrow> f | None \<Rightarrow> defaultMergeStatusFunction)
              (p_buildKey p) (p_newData p) marked = (Inr out, tr2)
         \<and> addNewSuggestions (p_opportunity p)
              (prepareNewSuggestions ctx (p_buildKey p) (p_mapNewSuggestion p) (p_newData p) existing)
              = (Inr (), tr3)
         \<and> tr = tr0 @ tr1 @ tr2 @ tr3"
  using assms
  by (auto simp: syncSuggestions_def Let_def split: prod.splits sum.splits)


lemma handle_no_add:
  "AddSuggestions items \<notin> set (snd (handleOutdatedSuggestions ctx xs keys bk st scr))"
  by (auto simp: handleOutdatedSuggestions_def Let_def split: option.splits)

lemma updateMatched_no_add:
  "AddSuggestions items \<notin> set (snd (updateMatched ctx md ms bk nd x))"
  by (auto simp: updateMatched_def Let_def split: prod.splits)

lemma update_no_add:
  "AddSuggestions items \<notin> set (snd (updateExistingSuggestions ctx md ms bk nd xs))"
  by (auto simp: updateExistingSuggestions_def Let_def updateMatched_no_add split: option.splits)





lemma handle_no_add':
  "handleOutdatedSuggestions ctx xs keys bk st scr = (r, t) \<Longrightarrow> AddSuggestions items \<notin> set t"
  using handle_no_add[of items ctx xs keys bk st scr] by simp

lemma update_no_add':
  "updateExistingSuggestions ctx md ms bk nd xs = (r, t) \<Longrightarrow> AddSuggestions items \<notin> set t"
  using update_no_add[of items ctx md ms bk nd xs] by simp





lemma fetch_Inr:
  "fetchSuggestions p = (Inr existing, tr) \<Longrightarrow>
     p_existingSuggestions p = Some existing
     \<or> (p_existingSuggestions p = None \<and> getSuggestions (p_opportunity p) = Inr existing)"
  by (auto simp: fetchSuggestions_def split: option.splits)

subsection \<open>Runs at the concrete inputs\<close>




subsection \<open>The claims about \<^verbatim>\<open>syncSuggestions\<close> and \<^verbatim>\<open>handleOutdatedSuggestions\<close>\<close>



text \<open>
  Claim C2. An existing suggestion whose data has a truthy \<^verbatim>\<open>tokowakaDeployed\<close> or
  \<^verbatim>\<open>edgeDeployed\<close> is never among the records handed to \<^verbatim>\<open>bulkUpdateStatus\<close> by the
  outdating step, whatever its key, its status, the new keys, the scraped-URL filter and the
  status to set; after the step the object is as it was.
\<close>

theorem deployed_never_outdated:
  assumes "i < length existingSuggestions"
    and "truthy (get_prop (getData (existingSuggestions ! i)) ''tokowakaDeployed'')
         \<or> truthy (get_prop (getData (existingSuggestions ! i)) ''edgeDeployed'')"
  shows "existingSuggestions ! i
           \<notin> set (existingOutdatedSuggestions existingSuggestions newDataKeys buildKey scrapedUrlsSet)
       \<and> (\<forall>marked tr.
            handleOutdatedSuggestions ctx existingSuggestions newDataKeys buildKey
              statusToSetForOutdated scrapedUrlsSet = (Inr marked, tr)
            \<longrightarrow> length marked = length existingSuggestions
                \<and> marked ! i = existingSuggestions ! i)"
proof -
  have n: "existingSuggestions ! i
           \<notin> set (existingOutdatedSuggestions existingSuggestions newDataKeys buildKey scrapedUrlsSet)"
    using assms(2) by (simp add: outdated_iff isDeployed_def)
  show ?thesis
    using n handleOutdated_length handleOutdated_nth[OF _ assms(1)] by auto
qed

theorem deployed_never_outdated_witness:
  "0 < length deployedPages
   \<and> truthy (get_prop (getData (deployedPages ! 0)) ''tokowakaDeployed'')
   \<and> deployedPages ! 0
        \<notin> set (existingOutdatedSuggestions deployedPages {''https://example.com/page4|page4''}
                 urlKeyOf (Some scrapedPages))
   \<and> handleOutdatedSuggestions okContext deployedPages {''https://example.com/page4|page4''}
        urlKeyOf OUTDATED (Some scrapedPages)
      = (Inr [deployedPages ! 0, deployedPages ! 1, setStatus OUTDATED (deployedPages ! 2)],
         [Log Info ''[SuggestionSync] Final count of suggestions to mark as OUTDATED: 1'',
          BulkUpdateStatus [deployedPages ! 2] OUTDATED])"
  using deployed_never_outdated[of 0 deployedPages "{''https://example.com/page4|page4''}"
          urlKeyOf "Some scrapedPages" okContext OUTDATED]
  by (simp add: deployedPages_def page_def handleOutdatedSuggestions_def
      existingOutdatedSuggestions_def isDeployed_def urlWasScraped_def scrapedPages_def
      urlKeyOf_def keyOf_def Let_def okContext_def okDataAccess_def setStatus_def
      show_nat.simps digit_char_def)





text \<open>
  Claim C10. When a scraped-URL filter is supplied, a suggestion whose data has no truthy
  \<^verbatim>\<open>url\<close> is never selected for outdating, whatever its key and status: the membership
  test reads the \<^verbatim>\<open>url\<close> field of the data, not the key. If its key is absent from the new
  findings, a call of \<^verbatim>\<open>syncSuggestions\<close> that returns leaves the object as it was.
\<close>

theorem no_url_never_outdated:
  assumes "scrapedUrlsSet = Some urls"
    and "i < length existingSuggestions"
    and "\<not> truthy (get_prop (getData (existingSuggestions ! i)) ''url'')"
  shows "existingSuggestions ! i
           \<notin> set (existingOutdatedSuggestions existingSuggestions newDataKeys buildKey scrapedUrlsSet)
       \<and> (\<forall>marked tr.
            handleOutdatedSuggestions ctx existingSuggestions newDataKeys buildKey
              statusToSetForOutdated scrapedUrlsSet = (Inr marked, tr)
            \<longrightarrow> marked ! i = existingSuggestions ! i)
       \<and> (\<forall>p out tr.
            p_context p = Some ctx \<and> p_scrapedUrlsSet p = scrapedUrlsSet
            \<and> p_existingSuggestions p = Some existingSuggestions
            \<and> p_buildKey p (getData (existingSuggestions ! i))
                 \<notin> set (map (p_buildKey p) (p_newData p))
            \<and> syncSuggestions p = (Inr out, tr)
            \<longrightarrow> out ! i = existingSuggestions ! i)"
proof -
  have n: "\<And>keys bk. existingSuggestions ! i
           \<notin> set (existingOutdatedSuggestions existingSuggestions keys bk scrapedUrlsSet)"
    using assms(1,3) by (simp add: outdated_iff urlWasScraped_def Let_def)
  have step: "\<And>c keys bk st marked tr.
            handleOutdatedSuggestions c existingSuggestions keys bk st scrapedUrlsSet
              = (Inr marked, tr) \<Longrightarrow> marked ! i = existingSuggestions ! i"
    using n handleOutdated_nth[OF _ assms(2)] by auto
  have whole: "out ! i = existingSuggestions ! i"
    if h: "p_context p = Some ctx" "p_scrapedUrlsSet p = scrapedUrlsSet"
       "p_existingSuggestions p = Some existingSuggestions"
       "p_buildKey p (getData (existingSuggestions ! i))
                 \<notin> set (map (p_buildKey p) (p_newData p))"
       "syncSuggestions p = (Inr out, tr)" for p out tr
  proof -
    from syncSuggestions_Inr[OF h(5) h(1)] obtain existing tr0 marked tr1 tr2 where
      f: "fetchSuggestions p = (Inr existing, tr0)"
      and ho: "handleOutdatedSuggestions ctx existing (set (map (p_buildKey p) (p_newData p)))
              (p_buildKey p) (case p_statusToSetForOutdated p of Some st \<Rightarrow> st | None \<Rightarrow> OUTDATED)
              (p_scrapedUrlsSet p) = (Inr marked, tr1)"
      and u: "updateExistingSuggestions ctx
              (case p_mergeDataFunction p of Some f \<Rightarrow> f | None \<Rightarrow> defaultMergeDataFunction)
              (case p_mergeStatusFunction p of Some f \<Rightarrow> f | None \<Rightarrow> defaultMergeStatusFunction)
              (p_buildKey p) (p_newData p) marked = (Inr out, tr2)"
      by blast
    have e: "existing = existingSuggestions" using f h(3) by (simp add: fetchSuggestions_def)
    have m: "marked ! i = existingSuggestions ! i"
      using step ho unfolding e h(2) by blast
    have l: "length marked = length existingSuggestions"
      using handleOutdated_length[OF ho] e by simp
    show ?thesis
      using updateExisting_nth[OF u, of i] l assms(2) m h(4) by simp
  qed
  show ?thesis using n step whole by blast
qed

theorem no_url_never_outdated_witness:
  "0 < length noUrl
   \<and> \<not> truthy (get_prop (getData (noUrl ! 0)) ''url'')
   \<and> noUrl ! 0 \<notin> set (existingOutdatedSuggestions noUrl {} keyOf (Some scrapedPages))
   \<and> handleOutdatedSuggestions okContext noUrl {} keyOf OUTDATED (Some scrapedPages)
       = (Inr noUrl,
          [Log Info ''[SuggestionSync] Final count of suggestions to mark as OUTDATED: 0''])"
  using no_url_never_outdated[of "Some scrapedPages" scrapedPages 0 noUrl "{}" keyOf
          okContext OUTDATED]
  by (simp add: noUrl_def finding_def handleOutdatedSuggestions_def
      existingOutdatedSuggestions_def isDeployed_def urlWasScraped_def scrapedPages_def
      keyOf_def Let_def show_nat.simps digit_char_def)


section \<open>Properties of the fix publication pipeline\<close>

subsection \<open>Auxiliary facts\<close>

lemma promiseAll_Inr:
  "promiseAll rs = Inr vs \<Longrightarrow> rs = map Inr vs"
  by (induction rs arbitrary: vs rule: promiseAll.induct) (auto split: sum.splits)

lemma promiseAll_map_Inr:
  assumes "promiseAll (map f xs) = Inr vs"
  shows "length vs = length xs \<and> (\<forall>i < length xs. f (xs ! i) = Inr (vs ! i))"
proof -
  have e: "map f xs = map Inr vs" using promiseAll_Inr[OF assms] .
  then have l: "length vs = length xs" by (metis length_map)
  have "\<forall>i < length xs. f (xs ! i) = Inr (vs ! i)"
  proof (intro allI impI)
    fix i assume "i < length xs"
    then have "map f xs ! i = map Inr vs ! i" using e by simp
    then show "f (xs ! i) = Inr (vs ! i)" using \<open>i < length xs\<close> l by simp
  qed
  then show ?thesis using l by simp
qed

lemma fastPath_present_key:
  "Some s \<in> set rs \<Longrightarrow> bk (getData s) \<in> keys \<Longrightarrow> fastPathReturns (Some keys) (Some bk) rs"
proof (induction rs)
  case Nil
  then show ?case by simp
next
  case (Cons r rs)
  then show ?case by (cases r) auto
qed

lemma fastPath_missing:
  "None \<in> set rs \<Longrightarrow> fastPathReturns ks bk rs"
  by (induction ks bk rs rule: fastPathReturns.induct) (auto split: option.splits)

lemma limit_results:
  "fst (limitConcurrencyAllSettled tasks n)
     = map (\<lambda>task. case fst task of Inl e \<Rightarrow> None | Inr v \<Rightarrow> Some v) tasks"
  by (simp add: limitConcurrencyAllSettled_def)

lemma limit_trace:
  "snd (limitConcurrencyAllSettled tasks n) = concat (map snd tasks)"
  by (simp add: limitConcurrencyAllSettled_def)

lemma checkFixEntity_same_entity:
  "fst (checkFixEntity getLinked isResolved ks bk fe) = Inr (fe', b) \<Longrightarrow> fe' = fe"
  by (auto simp: checkFixEntity_def Let_def split: if_splits sum.splits prod.splits)

lemma present_all:
  "\<not> fastPathReturns ks bk rs \<Longrightarrow> None \<notin> set rs"
  using fastPath_missing by blast

lemma concat_present:
  "None \<notin> set rs \<Longrightarrow> map Some (concat (map (\<lambda>res. case res of Some s \<Rightarrow> [s] | None \<Rightarrow> []) rs)) = rs"
proof (induction rs)
  case Nil
  then show ?case by simp
next
  case (Cons r rs)
  then show ?case by (cases r) auto
qed

lemma checkFixEntity_no_ids:
  "getSuggestionIds fe = None \<or> getSuggestionIds fe = Some [] \<Longrightarrow>
     checkFixEntity getLinked isResolved ks bk fe = (Inr (fe, False), [])"
  by (auto simp: checkFixEntity_def)

lemma checkFixEntity_rejected:
  "getSuggestionIds fe = Some ids \<Longrightarrow> ids \<noteq> [] \<Longrightarrow> promiseAll (map getLinked ids) = Inl e \<Longrightarrow>
     checkFixEntity getLinked isResolved ks bk fe = (Inl e, map GetFixEntitiesBySuggestionId ids)"
  by (simp add: checkFixEntity_def)

lemma checkFixEntity_fast:
  "getSuggestionIds fe = Some ids \<Longrightarrow> ids \<noteq> [] \<Longrightarrow> promiseAll (map getLinked ids) = Inr fetched \<Longrightarrow>
   fastPathReturns ks bk (map firstSuggestion fetched) \<Longrightarrow>
     checkFixEntity getLinked isResolved ks bk fe
       = (Inr (fe, False), map GetFixEntitiesBySuggestionId ids)"
  by (simp add: checkFixEntity_def)

lemma checkFixEntity_http:
  "getSuggestionIds fe = Some ids \<Longrightarrow> ids \<noteq> [] \<Longrightarrow> promiseAll (map getLinked ids) = Inr fetched \<Longrightarrow>
   \<not> fastPathReturns ks bk (map firstSuggestion fetched) \<Longrightarrow>
     fst (checkFixEntity getLinked isResolved ks bk fe)
       = Inr (fe, list_all (\<lambda>r. r = Some (JBool True))
                    (fst (limitConcurrencyAllSettled
                       (map (httpCheckTask isResolved)
                          (concat (map (\<lambda>res. case res of Some s \<Rightarrow> [s] | None \<Rightarrow> [])
                                     (map firstSuggestion fetched))))
                       MAX_CONCURRENT_CHECKS)))"
  by (simp add: checkFixEntity_def Let_def split: prod.splits)

lemma httpCheckTask_true:
  "(case fst (httpCheckTask isResolved s) of Inl e \<Rightarrow> None | Inr v \<Rightarrow> Some v) = Some (JBool True)
     \<Longrightarrow> \<exists>f. isResolved = Some f \<and> f s = Inr (JBool True)"
  by (auto simp: httpCheckTask_def split: option.splits sum.splits)

lemma checkFixEntity_resolved:
  assumes "fst (checkFixEntity getLinked isResolved ks bk fe) = Inr (fe', True)"
  shows "\<exists>ids. getSuggestionIds fe = Some ids \<and> ids \<noteq> []
           \<and> (\<forall>sid \<in> set ids. \<exists>s rest f. getLinked sid = Inr (s # rest)
                   \<and> isResolved = Some f \<and> f s = Inr (JBool True))"
proof (cases "getSuggestionIds fe")
  case None
  then show ?thesis using assms checkFixEntity_no_ids[of fe getLinked isResolved ks bk] by simp
next
  case (Some ids)
  show ?thesis
  proof (cases "ids = []")
    case True
    then show ?thesis
      using assms Some checkFixEntity_no_ids[of fe getLinked isResolved ks bk] by simp
  next
    case ne: False
    show ?thesis
    proof (cases "promiseAll (map getLinked ids)")
      case (Inl e)
      then show ?thesis using assms checkFixEntity_rejected[OF Some ne Inl] by simp
    next
      case (Inr fetched)
      let ?rs = "map firstSuggestion fetched"
      show ?thesis
      proof (cases "fastPathReturns ks bk ?rs")
        case True
        then show ?thesis using assms checkFixEntity_fast[OF Some ne Inr True] by simp
      next
        case False
        let ?present = "concat (map (\<lambda>res. case res of Some s \<Rightarrow> [s] | None \<Rightarrow> []) ?rs)"
        from checkFixEntity_http[OF Some ne Inr False, of isResolved] assms
        have all: "list_all (\<lambda>r. r = Some (JBool True))
                    (fst (limitConcurrencyAllSettled (map (httpCheckTask isResolved) ?present)
                       MAX_CONCURRENT_CHECKS))"
          by simp
        have pres: "map Some ?present = ?rs"
          using concat_present[OF present_all[OF False]] .
        from promiseAll_map_Inr[OF Inr]
        have len: "length fetched = length ids"
          and lk: "\<forall>i < length ids. getLinked (ids ! i) = Inr (fetched ! i)" by simp_all
        have "\<exists>s rest f. getLinked sid = Inr (s # rest)
                   \<and> isResolved = Some f \<and> f s = Inr (JBool True)" if "sid \<in> set ids" for sid
        proof -
          from that obtain i where i: "i < length ids" "ids ! i = sid"
            by (auto simp: in_set_conv_nth)
          have g: "getLinked sid = Inr (fetched ! i)" using lk i by auto
          have "?rs ! i = Some (?present ! i)" and li: "i < length ?present"
            using pres i len by (metis length_map nth_map)+
          then have fs: "firstSuggestion (fetched ! i) = Some (?present ! i)"
            using i len by simp
          then obtain rest where fr: "fetched ! i = (?present ! i) # rest"
            by (auto simp: firstSuggestion_def split: list.splits)
          have "(case fst (httpCheckTask isResolved (?present ! i)) of Inl e \<Rightarrow> None
                 | Inr v \<Rightarrow> Some v) = Some (JBool True)"
            using all li by (simp add: limit_results list_all_length)
          from httpCheckTask_true[OF this] show ?thesis using g fr by auto
        qed
        then show ?thesis using Some ne by blast
      qed
    qed
  qed
qed

lemma publishResolved_objects:
  "fst (publishResolved save ps)
     = map (\<lambda>(deployed, result).
              case result of
                Some (fixEntity, allResolved) \<Rightarrow>
                  if allResolved then fixEntity\<lparr>getFixStatus := PUBLISHED\<rparr> else deployed
              | None \<Rightarrow> deployed) ps"
  by (induction ps rule: publishResolved.induct)
     (auto simp: Let_def split: option.splits prod.splits if_splits)

lemma publish_after:
  assumes "allByOpportunityIdAndStatus (dataAccess ctx) = Some allBy"
    and "getFixEntitiesBySuggestionId (dataAccess ctx) = Some getLinked"
    and "allBy oid DEPLOYED = Inr (Some deployed)"
  shows "fst (snd (publishDeployedFixEntities oid (Some ctx) isResolved findings bk))
           = map (\<lambda>fe. if fst (checkFixEntity getLinked isResolved (currentKeys findings bk) bk fe)
                            = Inr (fe, True)
                        then fe\<lparr>getFixStatus := PUBLISHED\<rparr> else fe) deployed"
proof (cases "deployed = []")
  case True
  then show ?thesis using assms
    by (simp add: publishDeployedFixEntities_def publishTry_def)
next
  case False
  let ?chk = "checkFixEntity getLinked isResolved (currentKeys findings bk) bk"
  let ?results = "map (\<lambda>task. case fst task of Inl e \<Rightarrow> None | Inr v \<Rightarrow> Some v) (map ?chk deployed)"
  have "fst (snd (publishDeployedFixEntities oid (Some ctx) isResolved findings bk))
          = fst (publishResolved (saveFixEntity (dataAccess ctx)) (zip deployed ?results))"
    using assms False
    by (simp add: publishDeployedFixEntities_def publishTry_def Let_def
        limitConcurrencyAllSettled_def split: prod.splits)
  also have "\<dots> = map (\<lambda>fe. if fst (?chk fe) = Inr (fe, True)
                        then fe\<lparr>getFixStatus := PUBLISHED\<rparr> else fe) deployed"
  proof (rule nth_equalityI)
    show "length (fst (publishResolved (saveFixEntity (dataAccess ctx)) (zip deployed ?results)))
            = length (map (\<lambda>fe. if fst (?chk fe) = Inr (fe, True)
                        then fe\<lparr>getFixStatus := PUBLISHED\<rparr> else fe) deployed)"
      by (simp add: publishResolved_objects)
  next
    fix i assume "i < length (fst (publishResolved (saveFixEntity (dataAccess ctx))
                                (zip deployed ?results)))"
    then have i: "i < length deployed" by (simp add: publishResolved_objects)
    show "fst (publishResolved (saveFixEntity (dataAccess ctx)) (zip deployed ?results)) ! i
            = map (\<lambda>fe. if fst (?chk fe) = Inr (fe, True)
                        then fe\<lparr>getFixStatus := PUBLISHED\<rparr> else fe) deployed ! i"
      using i checkFixEntity_same_entity[of getLinked isResolved "currentKeys findings bk" bk
                "deployed ! i"]
      by (auto simp: publishResolved_objects split: sum.splits option.splits)
  qed
  finally show ?thesis .
qed

lemma httpCheckTask_trace:
  "ev \<in> set (snd (httpCheckTask isResolved s)) \<Longrightarrow> ev = IsIssueResolvedOnProduction s"
  by (auto simp: httpCheckTask_def split: option.splits)

lemma checkFixEntity_trace:
  assumes "ev \<in> set (snd (checkFixEntity getLinked isResolved ks bk fe))"
  shows "(\<exists>sid. ev = GetFixEntitiesBySuggestionId sid) \<or> (\<exists>s. ev = IsIssueResolvedOnProduction s)"
  using assms
  by (auto simp: checkFixEntity_def Let_def limitConcurrencyAllSettled_def
           split: if_splits sum.splits dest: httpCheckTask_trace)

lemma publishResolved_saves:
  "SaveFixEntity x \<in> set (snd (publishResolved save ps)) \<Longrightarrow>
     \<exists>d fe. (d, Some (fe, True)) \<in> set ps \<and> x = fe\<lparr>getFixStatus := PUBLISHED\<rparr>"
proof (induction ps)
  case Nil
  then show ?case by simp
next
  case (Cons p ps)
  obtain d r where p: "p = (d, r)" by (cases p)
  obtain others tr' where o: "publishResolved save ps = (others, tr')"
    by (cases "publishResolved save ps")
  show ?case
  proof (cases "SaveFixEntity x \<in> set tr'")
    case True
    then show ?thesis using Cons.IH o by auto
  next
    case False
    then show ?thesis using Cons.prems p o
      by (auto simp: Let_def split: option.splits prod.splits if_splits)
  qed
qed

subsection \<open>The claims about \<^verbatim>\<open>publishDeployedFixEntities\<close>\<close>

text \<open>
  Claim C6. With the findings of the current run and the key function supplied, if a linked
  suggestion of a deployed fix entity is fetched and its key is among the keys of the
  findings, then \<^verbatim>\<open>checkFixEntity\<close> either yields not resolved or fails on a rejected fetch
  (which the executor turns into a failure marker); its trace holds no call of the
  production-resolution predicate; and the pipeline leaves the fix entity as it was.
\<close>

theorem fast_path_short_circuit:
  assumes "getSuggestionIds fixEntity = Some ids"
    and "sid \<in> set ids"
    and "getLinked sid = Inr (s # rest)"
    and "bk (getData s) \<in> set (map bk findings)"
  shows "(fst (checkFixEntity getLinked isResolved (currentKeys (Some findings) (Some bk))
                 (Some bk) fixEntity) = Inr (fixEntity, False)
          \<or> (\<exists>e. fst (checkFixEntity getLinked isResolved (currentKeys (Some findings) (Some bk))
                        (Some bk) fixEntity) = Inl e))
       \<and> (\<forall>x. IsIssueResolvedOnProduction x
                \<notin> set (snd (checkFixEntity getLinked isResolved
                               (currentKeys (Some findings) (Some bk)) (Some bk) fixEntity)))
       \<and> (\<forall>ctx oid allBy deployed i.
            allByOpportunityIdAndStatus (dataAccess ctx) = Some allBy
            \<and> getFixEntitiesBySuggestionId (dataAccess ctx) = Some getLinked
            \<and> allBy oid DEPLOYED = Inr (Some deployed)
            \<and> i < length deployed \<and> deployed ! i = fixEntity
            \<longrightarrow> fst (snd (publishDeployedFixEntities oid (Some ctx) isResolved (Some findings)
                            (Some bk))) ! i = fixEntity)"
proof -
  let ?ks = "currentKeys (Some findings) (Some bk)"
  let ?chk = "checkFixEntity getLinked isResolved ?ks (Some bk) fixEntity"
  have ks: "?ks = Some (set (map bk findings))" by (simp add: currentKeys_def)
  have ne: "ids \<noteq> []" using assms(2) by auto
  have run: "?chk = (Inr (fixEntity, False), map GetFixEntitiesBySuggestionId ids)
           \<or> (\<exists>e. ?chk = (Inl e, map GetFixEntitiesBySuggestionId ids))"
  proof (cases "promiseAll (map getLinked ids)")
    case (Inl e)
    then show ?thesis using checkFixEntity_rejected[OF assms(1) ne Inl] by blast
  next
    case (Inr fetched)
    from promiseAll_map_Inr[OF Inr]
    have len: "length fetched = length ids"
      and lk: "\<forall>i < length ids. getLinked (ids ! i) = Inr (fetched ! i)" by simp_all
    from assms(2) obtain i where i: "i < length ids" "ids ! i = sid"
      by (auto simp: in_set_conv_nth)
    have "fetched ! i = s # rest" using lk i assms(3) by auto
    then have "firstSuggestion (fetched ! i) = Some s" by (simp add: firstSuggestion_def)
    then have "Some s \<in> set (map firstSuggestion fetched)"
      using i len by (metis length_map nth_map nth_mem)
    then have "fastPathReturns ?ks (Some bk) (map firstSuggestion fetched)"
      unfolding ks using fastPath_present_key assms(4) by blast
    from checkFixEntity_fast[OF assms(1) ne Inr this] show ?thesis by blast
  qed
  have a: "fst ?chk = Inr (fixEntity, False) \<or> (\<exists>e. fst ?chk = Inl e)"
    using run by auto
  have b: "\<forall>x. IsIssueResolvedOnProduction x \<notin> set (snd ?chk)"
    using run by auto
  have c: "fst (snd (publishDeployedFixEntities oid (Some ctx) isResolved (Some findings)
                            (Some bk))) ! i = fixEntity"
    if "allByOpportunityIdAndStatus (dataAccess ctx) = Some allBy"
       "getFixEntitiesBySuggestionId (dataAccess ctx) = Some getLinked"
       "allBy oid DEPLOYED = Inr (Some deployed)" "i < length deployed" "deployed ! i = fixEntity"
    for ctx oid allBy deployed i
    using publish_after[OF that(1,2,3), of isResolved "Some findings" "Some bk"] that(4,5) a
    by auto
  show ?thesis using a b c by blast
qed

theorem fast_path_short_circuit_witness:
  "checkFixEntity lookupLinked (Some alwaysResolved)
       (currentKeys (Some [finding ''existing-key'']) (Some keyOf)) (Some keyOf) fixOne
     = (Inr (fixOne, False), [GetFixEntitiesBySuggestionId ''sugg-1''])"
  using fast_path_short_circuit[of fixOne "[''sugg-1'']" "''sugg-1''" lookupLinked
          linkedSuggestion "[]" keyOf "[finding ''existing-key'']" "Some alwaysResolved"]
  by (simp add: checkFixEntity_def fixOne_def lookupLinked_def linkedSuggestion_def
      currentKeys_def firstSuggestion_def finding_def keyOf_def Let_def)

text \<open>
  Claim C7. For a deployed fix entity handled by \<^verbatim>\<open>publishDeployedFixEntities\<close>: the object
  afterwards is the object before or the object with status \<^verbatim>\<open>PUBLISHED\<close>; it is changed
  only if the fix entity has at least one linked suggestion identifier, every identifier
  fetches a present suggestion, and the production-resolution predicate is supplied and
  returns \<^verbatim>\<open>true\<close> for each of them. With no identifier, or with one that fetches nothing, the
  fix entity is not resolved and not changed. Every \<^verbatim>\<open>save()\<close> of a fix entity in the trace
  is the save of such a resolved fix entity.
\<close>

theorem publish_only_if_all_resolved:
  assumes "allByOpportunityIdAndStatus (dataAccess ctx) = Some allBy"
    and "getFixEntitiesBySuggestionId (dataAccess ctx) = Some getLinked"
    and "allBy oid DEPLOYED = Inr (Some deployed)"
    and "publishDeployedFixEntities oid (Some ctx) isResolved findings bk = (res, after, tr)"
    and "i < length deployed"
  shows "length after = length deployed
       \<and> (after ! i = deployed ! i \<or> after ! i = (deployed ! i)\<lparr>getFixStatus := PUBLISHED\<rparr>)
       \<and> (after ! i \<noteq> deployed ! i \<longrightarrow>
            (\<exists>ids. getSuggestionIds (deployed ! i) = Some ids \<and> ids \<noteq> []
               \<and> (\<forall>sid \<in> set ids. \<exists>s rest f. getLinked sid = Inr (s # rest)
                      \<and> isResolved = Some f \<and> f s = Inr (JBool True))))
       \<and> (getSuggestionIds (deployed ! i) = None \<or> getSuggestionIds (deployed ! i) = Some []
            \<or> (\<exists>ids sid. getSuggestionIds (deployed ! i) = Some ids \<and> sid \<in> set ids
                   \<and> getLinked sid = Inr [])
          \<longrightarrow> after ! i = deployed ! i
              \<and> fst (checkFixEntity getLinked isResolved (currentKeys findings bk) bk
                       (deployed ! i)) \<noteq> Inr (deployed ! i, True))
       \<and> (\<forall>x. SaveFixEntity x \<in> set tr \<longrightarrow>
            (\<exists>fe \<in> set deployed. x = fe\<lparr>getFixStatus := PUBLISHED\<rparr>
               \<and> (\<exists>ids. getSuggestionIds fe = Some ids \<and> ids \<noteq> []
                    \<and> (\<forall>sid \<in> set ids. \<exists>s rest f. getLinked sid = Inr (s # rest)
                           \<and> isResolved = Some f \<and> f s = Inr (JBool True)))))"
proof -
  let ?chk = "checkFixEntity getLinked isResolved (currentKeys findings bk) bk"
  have after: "after = map (\<lambda>fe. if fst (?chk fe) = Inr (fe, True)
                        then fe\<lparr>getFixStatus := PUBLISHED\<rparr> else fe) deployed"
    using publish_after[OF assms(1,2,3), of isResolved findings bk] assms(4) by simp
  have l: "length after = length deployed" using after by simp
  have n: "after ! i = (if fst (?chk (deployed ! i)) = Inr (deployed ! i, True)
                        then (deployed ! i)\<lparr>getFixStatus := PUBLISHED\<rparr> else deployed ! i)"
    using after assms(5) by simp
  have p2: "after ! i = deployed ! i \<or> after ! i = (deployed ! i)\<lparr>getFixStatus := PUBLISHED\<rparr>"
    using n by auto
  have p3: "after ! i \<noteq> deployed ! i \<longrightarrow>
            (\<exists>ids. getSuggestionIds (deployed ! i) = Some ids \<and> ids \<noteq> []
               \<and> (\<forall>sid \<in> set ids. \<exists>s rest f. getLinked sid = Inr (s # rest)
                      \<and> isResolved = Some f \<and> f s = Inr (JBool True)))"
    using n checkFixEntity_resolved[of getLinked isResolved "currentKeys findings bk" bk
              "deployed ! i" "deployed ! i"]
    by (cases "fst (?chk (deployed ! i)) = Inr (deployed ! i, True)") simp_all
  have no: "fst (?chk (deployed ! i)) \<noteq> Inr (deployed ! i, True)"
    if "getSuggestionIds (deployed ! i) = None \<or> getSuggestionIds (deployed ! i) = Some []
            \<or> (\<exists>ids sid. getSuggestionIds (deployed ! i) = Some ids \<and> sid \<in> set ids
                   \<and> getLinked sid = Inr [])"
  proof
    assume "fst (?chk (deployed ! i)) = Inr (deployed ! i, True)"
    from checkFixEntity_resolved[OF this] that show False by fastforce
  qed
  have p4: "getSuggestionIds (deployed ! i) = None \<or> getSuggestionIds (deployed ! i) = Some []
            \<or> (\<exists>ids sid. getSuggestionIds (deployed ! i) = Some ids \<and> sid \<in> set ids
                   \<and> getLinked sid = Inr [])
          \<longrightarrow> after ! i = deployed ! i
              \<and> fst (?chk (deployed ! i)) \<noteq> Inr (deployed ! i, True)"
    using no n by auto
  have p5: "\<exists>fe \<in> set deployed. x = fe\<lparr>getFixStatus := PUBLISHED\<rparr>
               \<and> (\<exists>ids. getSuggestionIds fe = Some ids \<and> ids \<noteq> []
                    \<and> (\<forall>sid \<in> set ids. \<exists>s rest f. getLinked sid = Inr (s # rest)
                           \<and> isResolved = Some f \<and> f s = Inr (JBool True)))"
    if x: "SaveFixEntity x \<in> set tr" for x
  proof -
    have ne: "deployed \<noteq> []" using assms(5) by auto
    let ?results = "map (\<lambda>task. case fst task of Inl e \<Rightarrow> None | Inr v \<Rightarrow> Some v)
                      (map ?chk deployed)"
    have tr: "tr = AllByOpportunityIdAndStatus oid DEPLOYED # concat (map snd (map ?chk deployed))
                 @ snd (publishResolved (saveFixEntity (dataAccess ctx)) (zip deployed ?results))"
      using assms(1,2,3,4) ne
      by (auto simp: publishDeployedFixEntities_def publishTry_def Let_def
          limitConcurrencyAllSettled_def split: prod.splits)
    have "SaveFixEntity x \<notin> set (concat (map snd (map ?chk deployed)))"
      using checkFixEntity_trace by fastforce
    then have "SaveFixEntity x
                 \<in> set (snd (publishResolved (saveFixEntity (dataAccess ctx)) (zip deployed ?results)))"
      using x tr by auto
    from publishResolved_saves[OF this] obtain d fe where
      m: "(d, Some (fe, True)) \<in> set (zip deployed ?results)"
      and xe: "x = fe\<lparr>getFixStatus := PUBLISHED\<rparr>" by blast
    from m obtain j where j: "j < length deployed" "deployed ! j = d"
      "?results ! j = Some (fe, True)"
      by (auto simp: in_set_conv_nth)
    then have c: "fst (?chk d) = Inr (fe, True)" by (auto split: sum.splits)
    have "fe = d" using checkFixEntity_same_entity[OF c] .
    with c checkFixEntity_resolved[OF c] j xe show ?thesis by (metis nth_mem)
  qed
  show ?thesis using l p2 p3 p4 p5 by blast
qed

theorem publish_only_if_all_resolved_witness:
  "publishDeployedFixEntities ''opp-id'' (Some publishContext) (Some alwaysResolved) None None
     = (Inr (), [fixOne\<lparr>getFixStatus := PUBLISHED\<rparr>, fixUnlinked],
        [AllByOpportunityIdAndStatus ''opp-id'' DEPLOYED,
         GetFixEntitiesBySuggestionId ''sugg-1'',
         IsIssueResolvedOnProduction linkedSuggestion,
         SaveFixEntity (fixOne\<lparr>getFixStatus := PUBLISHED\<rparr>),
         Log Info ''Published fix entity fix-1''])"
  using publish_only_if_all_resolved[of publishContext deployedLookup lookupLinked "''opp-id''"
          "[fixOne, fixUnlinked]" "Some alwaysResolved" None None "Inr ()"
          "[fixOne\<lparr>getFixStatus := PUBLISHED\<rparr>, fixUnlinked]"
          "[AllByOpportunityIdAndStatus ''opp-id'' DEPLOYED,
            GetFixEntitiesBySuggestionId ''sugg-1'',
            IsIssueResolvedOnProduction linkedSuggestion,
            SaveFixEntity (fixOne\<lparr>getFixStatus := PUBLISHED\<rparr>),
            Log Info ''Published fix entity fix-1'']" 0]
  by (simp add: publishDeployedFixEntities_def publishTry_def publishContext_def
      okContext_def okDataAccess_def deployedLookup_def checkFixEntity_def fixOne_def
      fixUnlinked_def lookupLinked_def currentKeys_def firstSuggestion_def Let_def
      limitConcurrencyAllSettled_def httpCheckTask_def alwaysResolved_def
      MAX_CONCURRENT_CHECKS_def)


section \<open>Properties of the reconciler and of the orchestrator\<close>

subsection \<open>Auxiliary facts\<close>



lemma markFixedSuggestions_step:
  "markFixedSuggestions save build opp author (r # rs) h =
     (let s = markFixed (h r);
          tr1 = (case save s of
                   None \<Rightarrow> [Save s]
                 | Some e \<Rightarrow> [Save s, Log Warn (''Failed to mark suggestion '' @ getId s
                                                 @ '' as FIXED: '' @ message e)]);
          built = (case build of
                     Some b \<Rightarrow>
                       if save s = None then
                         (case b s opp author of
                            Inr v \<Rightarrow> (if truthy v then [v] else [], [BuildFixEntityPayload s author])
                          | Inl e \<Rightarrow> ([], [BuildFixEntityPayload s author,
                                            Log Warn (''Failed building fix entity for suggestion ''
                                                      @ getId s @ '': '' @ message e)]))
                       else ([], [])
                   | None \<Rightarrow> ([], []));
          rest = markFixedSuggestions save build opp author rs (h(r := s))
      in (fst rest, fst built @ fst (snd rest),
          Log Debug (''[reconcileDisappearedSuggestions] Marking suggestion ''
                     @ getId (h r) @ '' as FIXED'') # tr1 @ snd built @ snd (snd rest)))"
  by (simp add: Let_def markFixed_def split: option.splits prod.splits sum.splits)



lemma reconcileTry_Inr: "fst (reconcileTry save opp refs isFixed build author h) = Inr ()"
  by (simp add: reconcileTry_def Let_def split: prod.splits)

lemma reconcile_result:
  "reconcileDisappearedSuggestions save opp refs isFixed build author h
     = (Inr (), snd (reconcileTry save opp refs isFixed build author h))"
  using reconcileTry_Inr[of save opp refs isFixed build author h]
  by (cases "reconcileTry save opp refs isFixed build author h")
     (auto simp: reconcileDisappearedSuggestions_def)





lemma markFixedSuggestions_events:
  "ev \<in> set (snd (snd (markFixedSuggestions save build opp author rs h))) \<Longrightarrow> \<not> isPublishEvent ev"
proof (induction rs arbitrary: h)
  case Nil
  then show ?case by simp
next
  case (Cons r rs)
  from Cons.prems Cons.IH show ?case
    unfolding markFixedSuggestions_step
    by (auto simp: Let_def split: option.splits sum.splits if_splits)
qed

lemma checkTask_events:
  "ev \<in> set (snd (checkTask isFixed h r)) \<Longrightarrow> \<not> isPublishEvent ev"
  by (auto simp: checkTask_def split: option.splits sum.splits)

lemma addCollected_events:
  "ev \<in> set (addCollectedFixEntities opp ps) \<Longrightarrow> \<not> isPublishEvent ev"
  by (auto simp: addCollectedFixEntities_def split: option.splits if_splits)

lemma reconcile_events:
  assumes "ev \<in> set (snd (snd (reconcileDisappearedSuggestions save opp refs isFixed build author h)))"
  shows "\<not> isPublishEvent ev"
proof (cases "filter (\<lambda>r. getStatus (h r) = NEW) refs = []")
  case True
  then show ?thesis using assms by (simp add: reconcile_result reconcileTry_def)
next
  case False
  let ?cs = "filter (\<lambda>r. getStatus (h r) = NEW) refs"
  let ?tasks = "map (checkTask isFixed h) ?cs"
  let ?m = "markFixedSuggestions save build opp author
              (fixedOf (fst (limitConcurrencyAllSettled ?tasks MAX_CONCURRENT_CHECKS))) h"
  have tr: "snd (snd (reconcileDisappearedSuggestions save opp refs isFixed build author h))
              = concat (map snd ?tasks) @ snd (snd ?m) @ addCollectedFixEntities opp (fst (snd ?m))"
    using False
    by (simp add: reconcile_result reconcileTry_def Let_def limitConcurrencyAllSettled_def
        split: prod.splits)
  show ?thesis
    using assms unfolding tr
    using checkTask_events markFixedSuggestions_events addCollected_events
    by (fastforce simp del: isPublishEvent.simps)
qed


lemma fetch_events:
  "fetchSuggestions p = (r, t) \<Longrightarrow> ev \<in> set t \<Longrightarrow> \<not> isPublishEvent ev"
  by (auto simp: fetchSuggestions_def split: option.splits)

lemma handle_events:
  "handleOutdatedSuggestions ctx xs keys bk st scr = (r, t) \<Longrightarrow> ev \<in> set t \<Longrightarrow> \<not> isPublishEvent ev"
  by (auto simp: handleOutdatedSuggestions_def Let_def split: option.splits if_splits)

lemma updateMatched_events:
  "ev \<in> set (snd (updateMatched ctx md ms bk nd x)) \<Longrightarrow> \<not> isPublishEvent ev"
  by (auto simp: updateMatched_def Let_def split: prod.splits)

lemma update_events:
  "updateExistingSuggestions ctx md ms bk nd xs = (r, t) \<Longrightarrow> ev \<in> set t \<Longrightarrow> \<not> isPublishEvent ev"
  by (auto simp: updateExistingSuggestions_def Let_def split: option.splits
           dest: updateMatched_events)

lemma logErrorItems_events: "ev \<in> set (logErrorItems sid n errs) \<Longrightarrow> \<not> isPublishEvent ev"
  by (auto simp: logErrorItems_def split: if_splits)

lemma addNew_events:
  assumes "addNewSuggestions opp ns = (r, t)" and "ev \<in> set t"
  shows "\<not> isPublishEvent ev"
proof (cases "ns = []")
  case True
  then show ?thesis using assms by (simp add: addNewSuggestions_def)
next
  case False
  show ?thesis
    using assms False logErrorItems_events[of ev]
    by (auto simp: addNewSuggestions_def Let_def
        split: sum.splits option.splits list.splits)
qed

lemma sync_events:
  assumes "ev \<in> set (snd (syncSuggestions p))"
  shows "\<not> isPublishEvent ev"
proof (cases "p_context p")
  case None
  then show ?thesis using assms by (simp add: syncSuggestions_def)
next
  case (Some ctx)
  show ?thesis
    using assms Some
    by (auto simp: syncSuggestions_def Let_def
        split: prod.splits sum.splits
        dest: fetch_events handle_events update_events addNew_events)
qed

lemma sync_events':
  "syncSuggestions p = (r, t) \<Longrightarrow> ev \<in> set t \<Longrightarrow> \<not> isPublishEvent ev"
  using sync_events[of ev p] by simp

lemma reconcile_events':
  "snd (reconcileDisappearedSuggestions save opp refs isFixed build author h) = (h', t)
     \<Longrightarrow> ev \<in> set t \<Longrightarrow> \<not> isPublishEvent ev"
  using reconcile_events[of ev save opp refs isFixed build author h] by simp











subsection \<open>The claims about the orchestrator and the best-effort stages\<close>

text \<open>
  Claim C5. For an opportunity whose type is in \<^verbatim>\<open>AUTHOR_ONLY_OPPORTUNITY_TYPES\<close>, the trace
  of \<^verbatim>\<open>syncSuggestionsWithPublishDetection\<close> holds no call of
  \<^verbatim>\<open>FixEntity.allByOpportunityIdAndStatus\<close> and no other event of the fix publication
  pipeline, and the whole result is the one obtained without a production-resolution
  callback: the pipeline is not run even when the callback is supplied.
\<close>

theorem author_only_skips_publish:
  assumes "getType (p_opportunity p) = Some opportunityType"
    and "opportunityType \<in> set AUTHOR_ONLY_OPPORTUNITY_TYPES"
  shows "(\<forall>oid st. AllByOpportunityIdAndStatus oid st
            \<notin> set (snd (syncSuggestionsWithPublishDetection p isIssueFixedWithAISuggestion
                           buildFixEntityPayload isIssueResolvedOnProduction)))
       \<and> (\<forall>ev \<in> set (snd (syncSuggestionsWithPublishDetection p isIssueFixedWithAISuggestion
                             buildFixEntityPayload isIssueResolvedOnProduction)).
            \<not> isPublishEvent ev)
       \<and> syncSuggestionsWithPublishDetection p isIssueFixedWithAISuggestion
            buildFixEntityPayload isIssueResolvedOnProduction
          = syncSuggestionsWithPublishDetection p isIssueFixedWithAISuggestion
              buildFixEntityPayload None"
proof -
  let ?run = "syncSuggestionsWithPublishDetection p isIssueFixedWithAISuggestion
                buildFixEntityPayload isIssueResolvedOnProduction"
  have same: "?run = syncSuggestionsWithPublishDetection p isIssueFixedWithAISuggestion
                       buildFixEntityPayload None"
    using assms
    by (simp add: syncSuggestionsWithPublishDetection_def Let_def
        split: option.splits sum.splits prod.splits)
  have ev: "\<not> isPublishEvent ev" if "ev \<in> set (snd ?run)" for ev
  proof (cases "p_context p")
    case None
    then show ?thesis using that by (simp add: syncSuggestionsWithPublishDetection_def)
  next
    case (Some ctx)
    show ?thesis
    proof (cases "getSuggestions (p_opportunity p)")
      case (Inl e)
      then show ?thesis using that Some
        by (auto simp: syncSuggestionsWithPublishDetection_def Let_def)
    next
      case (Inr existing)
      show ?thesis
        using that Some Inr assms
        by (auto simp: syncSuggestionsWithPublishDetection_def Let_def
            split: option.splits prod.splits
            dest: sync_events' reconcile_events')
    qed
  qed
  have "\<forall>oid st. AllByOpportunityIdAndStatus oid st \<notin> set (snd ?run)"
    using ev by fastforce
  then show ?thesis using ev same by blast
qed

theorem author_only_skips_publish_witness:
  "syncSuggestionsWithPublishDetection authorOnlySync None None (Some alwaysResolved)
     = (Inr [],
        [GetSuggestions,
         Log Debug ''[syncSuggestionsWithPublishDetection] Skipping publish for author-only type'',
         Log Info ''[SuggestionSync] Final count of suggestions to mark as OUTDATED: 0'',
         Log Info ''Adding 1 new suggestions for siteId site-id'',
         AddSuggestions [\<lparr>mapped = wrapData (finding ''1''), initialStatus = NEW\<rparr>],
         Log Debug ''Successfully created 1 suggestions for siteId site-id''])"
  using author_only_skips_publish[of authorOnlySync "''security-permissions-redundant''"
          None None "Some alwaysResolved"]
  by (simp add: syncSuggestionsWithPublishDetection_def authorOnlySync_def
      authorOnlyOpportunity_def AUTHOR_ONLY_OPPORTUNITY_TYPES_def disappearedRefs_def
      syncSuggestions_def fetchSuggestions_def handleOutdatedSuggestions_def
      existingOutdatedSuggestions_def Let_def show_nat.simps digit_char_def
      updateExistingSuggestions_def prepareNewSuggestions_def addNewSuggestions_def
      siteIdOrUnknown_def createAll_def createdCountText_def publishContext_def okContext_def
      siteRequiresValidation_def)





section \<open>Running the synchronisation twice\<close>

subsection \<open>Auxiliary facts\<close>

text \<open>
  A suggestion is settled for a finding list when a further run leaves it alone: either its key
  is among the findings, it is not \<^verbatim>\<open>OUTDATED\<close> and the default data merge with its finding
  gives back its data, or its key is absent and the outdating step does not select it, or
  it already has the status the step sets. The first run settles every suggestion it
  returns, and a run over settled suggestions changes no status and no data.
\<close>

lemma defaultMerge_idem:
  "defaultMergeDataFunction (defaultMergeDataFunction a b) b = defaultMergeDataFunction a b"
proof -
  have "(spread_fields a ++\<^sub>f spread_fields b) ++\<^sub>f spread_fields b
          = spread_fields a ++\<^sub>f spread_fields b"
    by (metis fmadd_assoc fmadd_idempotent)
  then show ?thesis by (simp add: defaultMergeDataFunction_def)
qed

lemma newDataByKey_distinct:
  assumes "distinct (map bk nd)" and "d \<in> set nd"
  shows "newDataByKey bk nd (bk d) = Some d"
proof -
  have "distinct (map fst (rev (map (\<lambda>d. (bk d, d)) nd)))"
    using assms(1) by (simp add: rev_map[symmetric] comp_def distinct_rev)
  moreover have "(bk d, d) \<in> set (rev (map (\<lambda>d. (bk d, d)) nd))"
    using assms(2) by auto
  ultimately show ?thesis
    unfolding newDataByKey_def by (rule map_of_is_SomeI)
qed

lemma updateMatched_default:
  assumes "newDataByKey bk nd (bk (getData x)) = Some d"
  shows "fst (updateMatched ctx defaultMergeDataFunction defaultMergeStatusFunction bk nd x)
           = x\<lparr>getData := defaultMergeDataFunction (getData x) d,
               getStatus := (if getStatus x = OUTDATED
                             then (if siteRequiresValidation ctx then PENDING_VALIDATION else NEW)
                             else getStatus x),
               getUpdatedBy := ''system''\<rparr>"
  using assms
  by (simp add: updateMatched_def defaultMergeStatusFunction_def Let_def setData_def
      setStatus_def setUpdatedBy_def)

lemma firstRejection_none: "firstRejection (map (\<lambda>x. None) xs) = None"
  by (induction xs) simp_all

lemma update_succeeds:
  assumes "\<forall>s. saveSuggestion (dataAccess ctx) s = None"
  shows "\<exists>out tr. updateExistingSuggestions ctx md ms bk nd xs = (Inr out, tr)"
  using assms
  by (simp add: updateExistingSuggestions_def Let_def firstRejection_none)

lemma handle_succeeds:
  assumes "\<forall>ys s. bulkUpdateStatus (dataAccess ctx) ys s = None"
  shows "\<exists>marked tr. handleOutdatedSuggestions ctx xs keys bk st scr = (Inr marked, tr)"
  using assms by (simp add: handleOutdatedSuggestions_def Let_def)

lemma handle_bulk_events:
  "handleOutdatedSuggestions ctx xs keys bk st scr = (r, t) \<Longrightarrow> BulkUpdateStatus ys s \<in> set t
     \<Longrightarrow> ys = existingOutdatedSuggestions xs keys bk scr \<and> s = st"
  by (auto simp: handleOutdatedSuggestions_def Let_def split: option.splits if_splits)

lemma updateMatched_no_bulk:
  "BulkUpdateStatus ys s \<notin> set (snd (updateMatched ctx md ms bk nd x))"
  by (auto simp: updateMatched_def Let_def split: prod.splits)

lemma update_no_bulk:
  "updateExistingSuggestions ctx md ms bk nd xs = (r, t) \<Longrightarrow> BulkUpdateStatus ys s \<notin> set t"
  by (auto simp: updateExistingSuggestions_def Let_def updateMatched_no_bulk split: option.splits)

lemma sync_succeeds:
  assumes "p_context p = Some ctx" and "p_existingSuggestions p = Some xs"
    and "\<forall>ys s. bulkUpdateStatus (dataAccess ctx) ys s = None"
    and "\<forall>s. saveSuggestion (dataAccess ctx) s = None"
    and "prepareNewSuggestions ctx (p_buildKey p) (p_mapNewSuggestion p) (p_newData p) xs = []"
  shows "\<exists>out tr. syncSuggestions p = (Inr out, tr)
           \<and> (\<forall>items. AddSuggestions items \<notin> set tr)
           \<and> (\<forall>ys s. BulkUpdateStatus ys s \<in> set tr \<longrightarrow>
                 ys = existingOutdatedSuggestions xs (set (map (p_buildKey p) (p_newData p)))
                        (p_buildKey p) (p_scrapedUrlsSet p)
                 \<and> s = (case p_statusToSetForOutdated p of Some st \<Rightarrow> st | None \<Rightarrow> OUTDATED))"
proof -
  let ?keys = "set (map (p_buildKey p) (p_newData p))"
  let ?st = "case p_statusToSetForOutdated p of Some st \<Rightarrow> st | None \<Rightarrow> OUTDATED"
  let ?md = "case p_mergeDataFunction p of Some f \<Rightarrow> f | None \<Rightarrow> defaultMergeDataFunction"
  let ?ms = "case p_mergeStatusFunction p of Some f \<Rightarrow> f | None \<Rightarrow> defaultMergeStatusFunction"
  from handle_succeeds[OF assms(3)] obtain marked tr1 where
    h: "handleOutdatedSuggestions ctx xs ?keys (p_buildKey p) ?st (p_scrapedUrlsSet p)
          = (Inr marked, tr1)" by blast
  from update_succeeds[OF assms(4)] obtain out tr2 where
    u: "updateExistingSuggestions ctx ?md ?ms (p_buildKey p) (p_newData p) marked = (Inr out, tr2)"
    by blast
  have run: "syncSuggestions p = (Inr out, tr1 @ tr2)"
    using assms(1,2,5) h u
    by (simp add: syncSuggestions_def fetchSuggestions_def Let_def addNewSuggestions_def)
  have "\<forall>items. AddSuggestions items \<notin> set (tr1 @ tr2)"
    using handle_no_add'[OF h] update_no_add'[OF u] by simp
  moreover have "\<forall>ys s. BulkUpdateStatus ys s \<in> set (tr1 @ tr2) \<longrightarrow>
                 ys = existingOutdatedSuggestions xs ?keys (p_buildKey p) (p_scrapedUrlsSet p)
                 \<and> s = ?st"
    using handle_bulk_events[OF h] update_no_bulk[OF u] by auto
  ultimately show ?thesis using run by blast
qed

lemma sync_settled_fixpoint:
  assumes ctx: "p_context p = Some ctx"
    and md: "p_mergeDataFunction p = None" and ms: "p_mergeStatusFunction p = None"
    and pre: "p_existingSuggestions p = Some xs"
    and dist: "distinct (map (p_buildKey p) (p_newData p))"
    and settled: "\<forall>x \<in> set xs. settled (p_buildKey p) (p_newData p)
                     (case p_statusToSetForOutdated p of Some st \<Rightarrow> st | None \<Rightarrow> OUTDATED)
                     (p_scrapedUrlsSet p) x"
    and run: "syncSuggestions p = (Inr out, tr)"
  shows "length out = length xs
       \<and> (\<forall>i < length xs. getStatus (out ! i) = getStatus (xs ! i)
             \<and> getData (out ! i) = getData (xs ! i) \<and> getId (out ! i) = getId (xs ! i))
       \<and> (\<forall>x \<in> set (existingOutdatedSuggestions xs (set (map (p_buildKey p) (p_newData p)))
                       (p_buildKey p) (p_scrapedUrlsSet p)).
             getStatus x = (case p_statusToSetForOutdated p of Some st \<Rightarrow> st | None \<Rightarrow> OUTDATED))"
proof -
  let ?bk = "p_buildKey p" and ?nd = "p_newData p" and ?scr = "p_scrapedUrlsSet p"
  let ?keys = "set (map ?bk ?nd)"
  let ?st = "case p_statusToSetForOutdated p of Some st \<Rightarrow> st | None \<Rightarrow> OUTDATED"
  let ?O = "existingOutdatedSuggestions xs ?keys ?bk ?scr"
  from syncSuggestions_Inr[OF run ctx] obtain existing tr0 marked tr1 tr2 where
    f: "fetchSuggestions p = (Inr existing, tr0)"
    and ho: "handleOutdatedSuggestions ctx existing ?keys ?bk ?st ?scr = (Inr marked, tr1)"
    and u: "updateExistingSuggestions ctx
              (case p_mergeDataFunction p of Some f \<Rightarrow> f | None \<Rightarrow> defaultMergeDataFunction)
              (case p_mergeStatusFunction p of Some f \<Rightarrow> f | None \<Rightarrow> defaultMergeStatusFunction)
              ?bk ?nd marked = (Inr out, tr2)"
    by blast
  have e: "existing = xs" using f pre by (simp add: fetchSuggestions_def)
  note ho = ho[unfolded e]
  have u': "updateExistingSuggestions ctx defaultMergeDataFunction defaultMergeStatusFunction
              ?bk ?nd marked = (Inr out, tr2)"
    using u md ms by simp
  have lm: "length marked = length xs" using handleOutdated_length[OF ho] .
  have lo: "length out = length xs" using updateExisting_length[OF u'] lm by simp
  have O: "\<forall>x \<in> set ?O. getStatus x = ?st"
  proof
    fix x assume "x \<in> set ?O"
    then have "x \<in> set xs" "?bk (getData x) \<notin> ?keys"
      "getStatus x \<notin> {OUTDATED, FIXED, ERROR, SKIPPED, REJECTED, APPROVED, IN_PROGRESS,
                        PENDING_VALIDATION}" "\<not> isDeployed x" "urlWasScraped ?scr x"
      by (simp_all add: outdated_iff)
    then show "getStatus x = ?st"
      using settled by (auto simp: settled_def)
  qed
  have each: "getStatus (out ! i) = getStatus (xs ! i)
             \<and> getData (out ! i) = getData (xs ! i) \<and> getId (out ! i) = getId (xs ! i)"
    if i: "i < length xs" for i
  proof -
    let ?x = "xs ! i"
    have xin: "?x \<in> set xs" using i by simp
    have sx: "settled ?bk ?nd ?st ?scr ?x" using settled xin by blast
    have m: "marked ! i = (if ?x \<in> set ?O then setStatus ?st ?x else ?x)"
      using handleOutdated_nth[OF ho i] .
    have o: "out ! i = (if ?bk (getData (marked ! i)) \<in> ?keys
              then fst (updateMatched ctx defaultMergeDataFunction defaultMergeStatusFunction
                          ?bk ?nd (marked ! i))
              else marked ! i)"
      using updateExisting_nth[OF u', of i] i lm by simp
    show ?thesis
    proof (cases "?bk (getData ?x) \<in> ?keys")
      case True
      then have "?x \<notin> set ?O" by (simp add: outdated_iff)
      then have mi: "marked ! i = ?x" using m by simp
      from sx True obtain d where d: "d \<in> set ?nd" "?bk d = ?bk (getData ?x)"
        "defaultMergeDataFunction (getData ?x) d = getData ?x" and no: "getStatus ?x \<noteq> OUTDATED"
        by (auto simp: settled_def)
      have lk: "newDataByKey ?bk ?nd (?bk (getData ?x)) = Some d"
        using newDataByKey_distinct[OF dist d(1)] d(2) by simp
      show ?thesis
        using o mi True updateMatched_default[OF lk, of ctx] d(3) no by simp
    next
      case False
      then have oi: "out ! i = marked ! i" using o m by (simp add: setStatus_def)
      show ?thesis
      proof (cases "?x \<in> set ?O")
        case True
        then have "getStatus ?x = ?st" using O by blast
        then show ?thesis using oi m True by (simp add: setStatus_def)
      next
        case False
        then show ?thesis using oi m by simp
      qed
    qed
  qed
  show ?thesis using lo each O by blast
qed

lemma first_run_settles:
  assumes ctx: "p_context p = Some ctx"
    and md: "p_mergeDataFunction p = None" and ms: "p_mergeStatusFunction p = None"
    and pre: "p_existingSuggestions p = Some xs"
    and dist: "distinct (map (p_buildKey p) (p_newData p))"
    and stable: "\<forall>e \<in> set xs. \<forall>d \<in> set (p_newData p).
                   p_buildKey p (getData e) = p_buildKey p d \<longrightarrow>
                   p_buildKey p (defaultMergeDataFunction (getData e) d) = p_buildKey p d"
    and run: "syncSuggestions p = (Inr out, tr)"
  shows "(\<forall>x \<in> set out. settled (p_buildKey p) (p_newData p)
                     (case p_statusToSetForOutdated p of Some st \<Rightarrow> st | None \<Rightarrow> OUTDATED)
                     (p_scrapedUrlsSet p) x)
       \<and> (\<forall>e \<in> set xs. p_buildKey p (getData e) \<in> set (map (p_buildKey p) (p_newData p))
             \<longrightarrow> p_buildKey p (getData e) \<in> set (map (\<lambda>s. p_buildKey p (getData s)) out))"
proof -
  let ?bk = "p_buildKey p" and ?nd = "p_newData p" and ?scr = "p_scrapedUrlsSet p"
  let ?keys = "set (map ?bk ?nd)"
  let ?st = "case p_statusToSetForOutdated p of Some st \<Rightarrow> st | None \<Rightarrow> OUTDATED"
  let ?O = "existingOutdatedSuggestions xs ?keys ?bk ?scr"
  from syncSuggestions_Inr[OF run ctx] obtain existing tr0 marked tr1 tr2 where
    f: "fetchSuggestions p = (Inr existing, tr0)"
    and ho: "handleOutdatedSuggestions ctx existing ?keys ?bk ?st ?scr = (Inr marked, tr1)"
    and u: "updateExistingSuggestions ctx
              (case p_mergeDataFunction p of Some f \<Rightarrow> f | None \<Rightarrow> defaultMergeDataFunction)
              (case p_mergeStatusFunction p of Some f \<Rightarrow> f | None \<Rightarrow> defaultMergeStatusFunction)
              ?bk ?nd marked = (Inr out, tr2)"
    by blast
  have e: "existing = xs" using f pre by (simp add: fetchSuggestions_def)
  note ho = ho[unfolded e]
  have u': "updateExistingSuggestions ctx defaultMergeDataFunction defaultMergeStatusFunction
              ?bk ?nd marked = (Inr out, tr2)"
    using u md ms by simp
  have lm: "length marked = length xs" using handleOutdated_length[OF ho] .
  have lo: "length out = length xs" using updateExisting_length[OF u'] lm by simp
  have each: "settled ?bk ?nd ?st ?scr (out ! i)
              \<and> (?bk (getData (xs ! i)) \<in> ?keys \<longrightarrow> ?bk (getData (out ! i)) = ?bk (getData (xs ! i)))"
    if i: "i < length xs" for i
  proof -
    let ?x = "xs ! i"
    have xin: "?x \<in> set xs" using i by simp
    have m: "marked ! i = (if ?x \<in> set ?O then setStatus ?st ?x else ?x)"
      using handleOutdated_nth[OF ho i] .
    have o: "out ! i = (if ?bk (getData (marked ! i)) \<in> ?keys
              then fst (updateMatched ctx defaultMergeDataFunction defaultMergeStatusFunction
                          ?bk ?nd (marked ! i))
              else marked ! i)"
      using updateExisting_nth[OF u', of i] i lm by simp
    show ?thesis
    proof (cases "?bk (getData ?x) \<in> ?keys")
      case True
      then have "?x \<notin> set ?O" by (simp add: outdated_iff)
      then have mi: "marked ! i = ?x" using m by simp
      from True obtain d where d: "d \<in> set ?nd" "?bk d = ?bk (getData ?x)" by auto
      have lk: "newDataByKey ?bk ?nd (?bk (getData ?x)) = Some d"
        using newDataByKey_distinct[OF dist d(1)] d(2) by simp
      have oi: "out ! i = ?x\<lparr>getData := defaultMergeDataFunction (getData ?x) d,
               getStatus := (if getStatus ?x = OUTDATED
                             then (if siteRequiresValidation ctx then PENDING_VALIDATION else NEW)
                             else getStatus ?x),
               getUpdatedBy := ''system''\<rparr>"
        using o mi True updateMatched_default[OF lk, of ctx] by simp
      have k: "?bk (defaultMergeDataFunction (getData ?x) d) = ?bk d"
        using stable xin d by auto
      have kin: "?bk (getData (out ! i)) \<in> ?keys" using oi k d(1) by simp
      have ns: "getStatus (out ! i) \<noteq> OUTDATED" using oi by simp
      have "\<exists>d' \<in> set ?nd. ?bk d' = ?bk (getData (out ! i))
                 \<and> defaultMergeDataFunction (getData (out ! i)) d' = getData (out ! i)"
        using oi k d(1) defaultMerge_idem[of "getData ?x" d] by (intro bexI[of _ d]) simp_all
      then have "settled ?bk ?nd ?st ?scr (out ! i)"
        using kin ns by (simp add: settled_def)
      moreover have "?bk (getData (out ! i)) = ?bk (getData ?x)"
        using oi k d(2) by simp
      ultimately show ?thesis by simp
    next
      case False
      then have oi: "out ! i = marked ! i" using o m by (simp add: setStatus_def)
      show ?thesis
      proof (cases "?x \<in> set ?O")
        case True
        then have "out ! i = setStatus ?st ?x" using oi m by simp
        then show ?thesis using False by (simp add: settled_def setStatus_def)
      next
        case no: False
        then have ox: "out ! i = ?x" using oi m by simp
        have "\<not> (getStatus ?x \<notin> {OUTDATED, FIXED, ERROR, SKIPPED, REJECTED, APPROVED,
                                     IN_PROGRESS, PENDING_VALIDATION}
                 \<and> \<not> isDeployed ?x \<and> urlWasScraped ?scr ?x)"
          using no xin False by (simp add: outdated_iff)
        then show ?thesis using False ox by (auto simp: settled_def)
      qed
    qed
  qed
  have a: "\<forall>x \<in> set out. settled ?bk ?nd ?st ?scr x"
    using each lo by (metis in_set_conv_nth)
  have b: "?bk (getData e) \<in> set (map (\<lambda>s. ?bk (getData s)) out)"
    if "e \<in> set xs" "?bk (getData e) \<in> ?keys" for e
  proof -
    from that(1) obtain i where i: "i < length xs" "xs ! i = e" by (auto simp: in_set_conv_nth)
    have "?bk (getData e) = ?bk (getData (out ! i))" using each[OF i(1)] i(2) that(2) by simp
    moreover have "out ! i \<in> set out" using i(1) lo by simp
    ultimately have "?bk (getData e) \<in> (\<lambda>s. ?bk (getData s)) ` set out" by (rule image_eqI)
    then show ?thesis by simp
  qed
  show ?thesis using a b by blast
qed

lemma created_settled:
  assumes builder: "\<forall>d \<in> set nd. bk (get_prop (mapNew d) ''data'') = bk d
                      \<and> defaultMergeDataFunction (get_prop (mapNew d) ''data'') d
                          = get_prop (mapNew d) ''data''"
    and data: "map getData created
                 = map (\<lambda>n. get_prop (mapped n) ''data'') (prepareNewSuggestions ctx bk mapNew nd xs)"
    and status: "map getStatus created
                 = map initialStatus (prepareNewSuggestions ctx bk mapNew nd xs)"
  shows "(\<forall>c \<in> set created. settled bk nd st scr c)
       \<and> (\<forall>d \<in> set nd. bk d \<notin> set (map (\<lambda>s. bk (getData s)) xs)
             \<longrightarrow> bk d \<in> set (map (\<lambda>s. bk (getData s)) created))"
proof -
  let ?new = "filter (\<lambda>d. bk d \<notin> set (map (\<lambda>s. bk (getData s)) xs)) nd"
  let ?ns = "prepareNewSuggestions ctx bk mapNew nd xs"
  have ns: "?ns = map (\<lambda>d. \<lparr>mapped = mapNew d,
                   initialStatus = (if siteRequiresValidation ctx then PENDING_VALIDATION
                                    else NEW)\<rparr>) ?new"
    by (simp add: prepareNewSuggestions_def)
  have len: "length created = length ?new"
    using data ns by (metis length_map)
  have each: "getData (created ! j) = get_prop (mapNew (?new ! j)) ''data''
              \<and> getStatus (created ! j) \<noteq> OUTDATED" if j: "j < length ?new" for j
  proof -
    have "map getData created ! j = map (\<lambda>n. get_prop (mapped n) ''data'') ?ns ! j"
      using data by simp
    then have d: "getData (created ! j) = get_prop (mapNew (?new ! j)) ''data''"
      using j len ns by simp
    have "map getStatus created ! j = map initialStatus ?ns ! j" using status by simp
    then have "getStatus (created ! j)
                 = (if siteRequiresValidation ctx then PENDING_VALIDATION else NEW)"
      using j len ns by simp
    then show ?thesis using d by simp
  qed
  have a: "settled bk nd st scr c" if "c \<in> set created" for c
  proof -
    from that obtain j where j: "j < length created" "created ! j = c"
      by (auto simp: in_set_conv_nth)
    then have jn: "j < length ?new" using len by simp
    have dn: "?new ! j \<in> set nd" using nth_mem[OF jn] by simp
    show ?thesis
      using each[OF jn] j(2) builder dn by (auto simp: settled_def)
  qed
  have b: "bk d \<in> set (map (\<lambda>s. bk (getData s)) created)"
    if "d \<in> set nd" "bk d \<notin> set (map (\<lambda>s. bk (getData s)) xs)" for d
  proof -
    have "d \<in> set ?new" using that by simp
    then obtain j where j: "j < length ?new" "?new ! j = d" by (metis in_set_conv_nth)
    have "bk d = bk (getData (created ! j))" using each[OF j(1)] j(2) builder that(1) by simp
    moreover have "created ! j \<in> set created" using j(1) len by simp
    ultimately have "bk d \<in> (\<lambda>s. bk (getData s)) ` set created" by (rule image_eqI)
    then show ?thesis by simp
  qed
  show ?thesis using a b by blast
qed

lemma repeatedSync_new:
  "prepareNewSuggestions okContext keyOf wrapData [retitled ''1'', retitled ''2''] staleStore
     = [\<lparr>mapped = wrapData (retitled ''1''), initialStatus = NEW\<rparr>]"
  by (simp add: prepareNewSuggestions_def staleStore_def retitled_def finding_def keyOf_def
      okContext_def siteRequiresValidation_def)

lemma repeatedSync_run: "\<exists>out tr. syncSuggestions repeatedSync = (Inr out, tr)"
  by (simp add: syncSuggestions_def repeatedSync_def fetchSuggestions_def
      staleStore_def retitled_def finding_def keyOf_def fixOpportunity_def createAll_def
      handleOutdatedSuggestions_def existingOutdatedSuggestions_def Let_def
      isDeployed_def urlWasScraped_def
      updateExistingSuggestions_def prepareNewSuggestions_def
      addNewSuggestions_def okContext_def okDataAccess_def siteRequiresValidation_def)

subsection \<open>The claim about idempotence\<close>

text \<open>
  Claim C4. As stated, for any store state and finding set, the property does not hold:
  the data written at creation is what \<^verbatim>\<open>mapNewSuggestion\<close> returns, while a matched
  suggestion receives \<^verbatim>\<open>{ ...existing.getData(), ...newDataItem }\<close>. With a builder that keeps
  only the key of the finding, the first call creates a suggestion whose data has no
  \<^verbatim>\<open>title\<close>; the second call, with the same finding and the created suggestion in the
  store, creates nothing but rewrites the data of that suggestion, which now has the
  \<^verbatim>\<open>title\<close> of the finding.
\<close>

theorem sync_idempotent_counterexample:
  "syncSuggestions keyOnlyFirstRun
     = (Inr [],
        [Log Info ''[SuggestionSync] Final count of suggestions to mark as OUTDATED: 0'',
         Log Info ''Adding 1 new suggestions for siteId site-id'',
         AddSuggestions [keyOnlyNew],
         Log Debug ''Successfully created 1 suggestions for siteId site-id''])
   \<and> createAll [keyOnlyNew]
       = Inr \<lparr>createdItems = Some [keyOnlyCreated], errorItems = Some [], arrayLength = None\<rparr>
   \<and> getData keyOnlyCreated = finding ''1''
   \<and> fst (syncSuggestions keyOnlySecondRun)
       = Inr [keyOnlyCreated\<lparr>getData := defaultMergeDataFunction (finding ''1'') (retitled ''1''),
                             getUpdatedBy := ''system''\<rparr>]
   \<and> get_prop (finding ''1'') ''title'' = JUndefined
   \<and> get_prop (defaultMergeDataFunction (finding ''1'') (retitled ''1'')) ''title''
       = JStr ''new title''"
  by (simp add: syncSuggestions_def keyOnlyFirstRun_def keyOnlySecondRun_def keyOnlyCreated_def
      keyOnlyNew_def persist_def wrapKey_def retitled_def finding_def keyOf_def
      fetchSuggestions_def fixOpportunity_def createAll_def
      handleOutdatedSuggestions_def existingOutdatedSuggestions_def Let_def show_nat.simps
      digit_char_def updateExistingSuggestions_def updateMatched_def newDataByKey_def
      defaultMergeStatusFunction_def defaultMergeDataFunction_def setData_def setStatus_def
      setUpdatedBy_def prepareNewSuggestions_def
      addNewSuggestions_def siteIdOrUnknown_def createdCountText_def okContext_def
      okDataAccess_def siteRequiresValidation_def)

text \<open>
  Claim C4, amended. Let the finding keys be pairwise distinct, let the default data merge of
  a stored suggestion with a finding of the same key keep that key, let the data built by
  \<^verbatim>\<open>mapNewSuggestion\<close> have the key of its finding and absorb the finding (merging the
  finding into it gives it back), and let no store operation reject, the batch create
  reporting one created suggestion per submitted record, with the data and status
  submitted. Then, with the default merge functions, a second call on the suggestions
  returned by the first call followed by the created ones returns normally, leaves every
  status, data and identifier as it was, submits no record for creation, and every
  suggestion it passes to \<^verbatim>\<open>bulkUpdateStatus\<close> already has the status that is set.
\<close>

theorem sync_idempotent:
  assumes ctx: "p_context p = Some ctx"
    and md: "p_mergeDataFunction p = None" and ms: "p_mergeStatusFunction p = None"
    and pre: "p_existingSuggestions p = Some existing"
    and dist: "distinct (map (p_buildKey p) (p_newData p))"
    and stable: "\<forall>e \<in> set existing. \<forall>d \<in> set (p_newData p).
                   p_buildKey p (getData e) = p_buildKey p d \<longrightarrow>
                   p_buildKey p (defaultMergeDataFunction (getData e) d) = p_buildKey p d"
    and builder: "\<forall>d \<in> set (p_newData p).
                    p_buildKey p (get_prop (p_mapNewSuggestion p d) ''data'') = p_buildKey p d
                    \<and> defaultMergeDataFunction (get_prop (p_mapNewSuggestion p d) ''data'') d
                        = get_prop (p_mapNewSuggestion p d) ''data''"
    and bulk: "\<forall>ys s. bulkUpdateStatus (dataAccess ctx) ys s = None"
    and save: "\<forall>s. saveSuggestion (dataAccess ctx) s = None"
    and run: "syncSuggestions p = (Inr after, tr)"
    and reported: "prepareNewSuggestions ctx (p_buildKey p) (p_mapNewSuggestion p) (p_newData p)
                     existing \<noteq> [] \<longrightarrow>
                   (\<exists>r. addSuggestions (p_opportunity p)
                          (prepareNewSuggestions ctx (p_buildKey p) (p_mapNewSuggestion p)
                             (p_newData p) existing) = Inr r
                        \<and> createdItems r = Some created)"
    and data: "map getData created
                 = map (\<lambda>n. get_prop (mapped n) ''data'')
                     (prepareNewSuggestions ctx (p_buildKey p) (p_mapNewSuggestion p) (p_newData p)
                        existing)"
    and status: "map getStatus created
                 = map initialStatus
                     (prepareNewSuggestions ctx (p_buildKey p) (p_mapNewSuggestion p) (p_newData p)
                        existing)"
  shows "\<exists>after2 tr2.
           syncSuggestions (p\<lparr>p_existingSuggestions := Some (after @ created)\<rparr>) = (Inr after2, tr2)
         \<and> map getStatus after2 = map getStatus (after @ created)
         \<and> map getData after2 = map getData (after @ created)
         \<and> map getId after2 = map getId (after @ created)
         \<and> (\<forall>items. AddSuggestions items \<notin> set tr2)
         \<and> (\<forall>ys s. BulkUpdateStatus ys s \<in> set tr2 \<longrightarrow> (\<forall>x \<in> set ys. getStatus x = s))"
proof -
  let ?bk = "p_buildKey p" and ?nd = "p_newData p" and ?scr = "p_scrapedUrlsSet p"
  let ?st = "case p_statusToSetForOutdated p of Some st \<Rightarrow> st | None \<Rightarrow> OUTDATED"
  let ?store = "after @ created"
  let ?p2 = "p\<lparr>p_existingSuggestions := Some ?store\<rparr>"
  from first_run_settles[OF ctx md ms pre dist stable run]
  have s1: "\<forall>x \<in> set after. settled ?bk ?nd ?st ?scr x"
    and k1: "\<forall>e \<in> set existing. ?bk (getData e) \<in> set (map ?bk ?nd)
                \<longrightarrow> ?bk (getData e) \<in> set (map (\<lambda>s. ?bk (getData s)) after)"
    by blast+
  from created_settled[OF builder data status, of ?st ?scr]
  have s2: "\<forall>c \<in> set created. settled ?bk ?nd ?st ?scr c"
    and k2: "\<forall>d \<in> set ?nd. ?bk d \<notin> set (map (\<lambda>s. ?bk (getData s)) existing)
                \<longrightarrow> ?bk d \<in> set (map (\<lambda>s. ?bk (getData s)) created)"
    by blast+
  have all_settled: "\<forall>x \<in> set ?store. settled ?bk ?nd ?st ?scr x"
    using s1 s2 by auto
  have covered: "?bk d \<in> set (map (\<lambda>s. ?bk (getData s)) ?store)" if d: "d \<in> set ?nd" for d
  proof (cases "?bk d \<in> set (map (\<lambda>s. ?bk (getData s)) existing)")
    case True
    then obtain e where e: "e \<in> set existing" "?bk (getData e) = ?bk d" by auto
    have "?bk (getData e) \<in> set (map ?bk ?nd)" using e(2) d by simp
    then have "?bk (getData e) \<in> set (map (\<lambda>s. ?bk (getData s)) after)" using k1 e(1) by blast
    then show ?thesis using e(2) by auto
  next
    case False
    then have "?bk d \<in> set (map (\<lambda>s. ?bk (getData s)) created)" using k2 d by blast
    then show ?thesis by auto
  qed
  have none_new: "prepareNewSuggestions ctx ?bk (p_mapNewSuggestion p) ?nd ?store = []"
    using covered by (simp add: prepareNewSuggestions_def filter_empty_conv)
  have c2: "p_context ?p2 = Some ctx" and pre2: "p_existingSuggestions ?p2 = Some ?store"
    and md2: "p_mergeDataFunction ?p2 = None" and ms2: "p_mergeStatusFunction ?p2 = None"
    using ctx md ms by simp_all
  have dist2: "distinct (map (p_buildKey ?p2) (p_newData ?p2))" using dist by simp
  have none_new2: "prepareNewSuggestions ctx (p_buildKey ?p2) (p_mapNewSuggestion ?p2)
                     (p_newData ?p2) ?store = []"
    using none_new by simp
  from sync_succeeds[OF c2 pre2 bulk save none_new2] obtain after2 tr2 where
    run2: "syncSuggestions ?p2 = (Inr after2, tr2)"
    and noadd: "\<forall>items. AddSuggestions items \<notin> set tr2"
    and bulks: "\<forall>ys s. BulkUpdateStatus ys s \<in> set tr2 \<longrightarrow>
                 ys = existingOutdatedSuggestions ?store (set (map ?bk ?nd)) ?bk ?scr \<and> s = ?st"
    by auto
  have settled2: "\<forall>x \<in> set ?store. settled (p_buildKey ?p2) (p_newData ?p2)
                     (case p_statusToSetForOutdated ?p2 of Some st \<Rightarrow> st | None \<Rightarrow> OUTDATED)
                     (p_scrapedUrlsSet ?p2) x"
    using all_settled by simp
  from sync_settled_fixpoint[OF c2 md2 ms2 pre2 dist2 settled2 run2]
  have len: "length after2 = length ?store"
    and same: "\<forall>i < length ?store. getStatus (after2 ! i) = getStatus (?store ! i)
             \<and> getData (after2 ! i) = getData (?store ! i)
             \<and> getId (after2 ! i) = getId (?store ! i)"
    and noop: "\<forall>x \<in> set (existingOutdatedSuggestions ?store (set (map ?bk ?nd)) ?bk ?scr).
             getStatus x = ?st"
    by simp_all
  have m1: "map getStatus after2 = map getStatus ?store"
    using len same by (intro nth_equalityI) (simp_all del: map_append)
  have m2: "map getData after2 = map getData ?store"
    using len same by (intro nth_equalityI) (simp_all del: map_append)
  have m3: "map getId after2 = map getId ?store"
    using len same by (intro nth_equalityI) (simp_all del: map_append)
  have m4: "\<forall>ys s. BulkUpdateStatus ys s \<in> set tr2 \<longrightarrow> (\<forall>x \<in> set ys. getStatus x = s)"
    using bulks noop by blast
  show ?thesis using run2 m1 m2 m3 noadd m4 by blast
qed

theorem sync_idempotent_witness:
  "\<exists>after tr after2 tr2.
      syncSuggestions repeatedSync = (Inr after, tr)
    \<and> syncSuggestions (repeatedSync\<lparr>p_existingSuggestions := Some (after @ repeatedCreated)\<rparr>)
        = (Inr after2, tr2)
    \<and> map getStatus after2 = map getStatus (after @ repeatedCreated)
    \<and> map getData after2 = map getData (after @ repeatedCreated)"
proof -
  from repeatedSync_run obtain after tr where run: "syncSuggestions repeatedSync = (Inr after, tr)"
    by blast
  have ctx: "p_context repeatedSync = Some okContext"
    and md: "p_mergeDataFunction repeatedSync = None"
    and ms: "p_mergeStatusFunction repeatedSync = None"
    and pre: "p_existingSuggestions repeatedSync = Some staleStore"
    by (simp_all add: repeatedSync_def)
  have dist: "distinct (map (p_buildKey repeatedSync) (p_newData repeatedSync))"
    by (simp add: repeatedSync_def retitled_def keyOf_def)
  have stable: "\<forall>e \<in> set staleStore. \<forall>d \<in> set (p_newData repeatedSync).
                   p_buildKey repeatedSync (getData e) = p_buildKey repeatedSync d \<longrightarrow>
                   p_buildKey repeatedSync (defaultMergeDataFunction (getData e) d)
                     = p_buildKey repeatedSync d"
    by (simp add: repeatedSync_def staleStore_def retitled_def finding_def keyOf_def
        defaultMergeDataFunction_def)
  have builder: "\<forall>d \<in> set (p_newData repeatedSync).
                    p_buildKey repeatedSync (get_prop (p_mapNewSuggestion repeatedSync d) ''data'')
                      = p_buildKey repeatedSync d
                    \<and> defaultMergeDataFunction
                          (get_prop (p_mapNewSuggestion repeatedSync d) ''data'') d
                        = get_prop (p_mapNewSuggestion repeatedSync d) ''data''"
    by (simp add: repeatedSync_def retitled_def wrapData_def defaultMergeDataFunction_def)
  have bulk: "\<forall>ys s. bulkUpdateStatus (dataAccess okContext) ys s = None"
    and save: "\<forall>s. saveSuggestion (dataAccess okContext) s = None"
    by (simp_all add: okContext_def okDataAccess_def)
  have new: "prepareNewSuggestions okContext (p_buildKey repeatedSync)
               (p_mapNewSuggestion repeatedSync) (p_newData repeatedSync) staleStore
             = [\<lparr>mapped = wrapData (retitled ''1''), initialStatus = NEW\<rparr>]"
    using repeatedSync_new by (simp add: repeatedSync_def)
  have reported: "prepareNewSuggestions okContext (p_buildKey repeatedSync)
                    (p_mapNewSuggestion repeatedSync) (p_newData repeatedSync) staleStore \<noteq> [] \<longrightarrow>
                  (\<exists>r. addSuggestions (p_opportunity repeatedSync)
                         (prepareNewSuggestions okContext (p_buildKey repeatedSync)
                            (p_mapNewSuggestion repeatedSync) (p_newData repeatedSync) staleStore)
                        = Inr r
                       \<and> createdItems r = Some repeatedCreated)"
    unfolding new by (simp add: repeatedSync_def fixOpportunity_def createAll_def
        repeatedCreated_def)
  have data: "map getData repeatedCreated
                = map (\<lambda>n. get_prop (mapped n) ''data'')
                    (prepareNewSuggestions okContext (p_buildKey repeatedSync)
                       (p_mapNewSuggestion repeatedSync) (p_newData repeatedSync) staleStore)"
    unfolding new by (simp add: repeatedCreated_def persist_def)
  have status: "map getStatus repeatedCreated
                = map initialStatus
                    (prepareNewSuggestions okContext (p_buildKey repeatedSync)
                       (p_mapNewSuggestion repeatedSync) (p_newData repeatedSync) staleStore)"
    unfolding new by (simp add: repeatedCreated_def persist_def)
  from sync_idempotent[OF ctx md ms pre dist stable builder bulk save run reported data status]
  show ?thesis using run by blast
qed

end
